theory Spec2Isabelle
  imports Main
begin

section \<open>JavaScript primitives used by the tracker\<close>

text \<open>
  Strings are \<^typ>\<open>string\<close>; the identifiers, labels and keys handled here are ASCII.
  Numbers that the code formats or parses are integers, far below the range where
  JavaScript switches to exponent notation, so \<open>String(n)\<close> and a template literal
  \<open>`${n}`\<close> are the decimal digits of \<open>n\<close>, with a leading minus sign when negative.
\<close>

definition digit_char :: "nat \<Rightarrow> char" where
  "digit_char d = char_of (48 + d)"

definition is_digit :: "char \<Rightarrow> bool" where
  "is_digit c = (48 \<le> (of_char c :: nat) \<and> (of_char c :: nat) \<le> 57)"

definition is_upper :: "char \<Rightarrow> bool" where
  "is_upper c = (65 \<le> (of_char c :: nat) \<and> (of_char c :: nat) \<le> 90)"

definition digit_val :: "char \<Rightarrow> nat" where
  "digit_val c = of_char c - 48"

fun show_nat :: "nat \<Rightarrow> string" where
  "show_nat n = (if n < 10 then [digit_char n] else show_nat (n div 10) @ [digit_char (n mod 10)])"

declare show_nat.simps [simp del]

definition show_int :: "int \<Rightarrow> string" where
  "show_int i = (if i < 0 then CHR ''-'' # show_nat (nat (- i)) else show_nat (nat i))"

text \<open>\<open>parseInt\<close> on a string that consists of decimal digits only.\<close>

definition parseInt :: "string \<Rightarrow> nat" where
  "parseInt s = foldl (\<lambda>acc c. 10 * acc + digit_val c) 0 s"

text \<open>\<open>s.slice(-2)\<close>: the last two characters, or all of \<open>s\<close> when it is shorter.\<close>

definition slice_last2 :: "string \<Rightarrow> string" where
  "slice_last2 s = drop (length s - 2) s"

text \<open>\<open>s.padStart(2, '0')\<close>.\<close>

definition padStart2 :: "string \<Rightarrow> string" where
  "padStart2 s = (if length s < 2 then replicate (2 - length s) CHR ''0'' @ s else s)"

text \<open>\<open>s.toUpperCase()\<close> on ASCII text.\<close>

definition toUpperCase :: "string \<Rightarrow> string" where
  "toUpperCase s =
     map (\<lambda>c. if 97 \<le> (of_char c :: nat) \<and> (of_char c :: nat) \<le> 122
               then char_of ((of_char c :: nat) - 32) else c) s"

text \<open>\<open>Array.prototype.findIndex\<close>, with \<open>None\<close> for the result \<open>-1\<close>.\<close>

fun findIndex :: "('a \<Rightarrow> bool) \<Rightarrow> 'a list \<Rightarrow> nat option" where
  "findIndex P [] = None"
| "findIndex P (x # xs) =
     (if P x then Some 0 else (case findIndex P xs of None \<Rightarrow> None | Some i \<Rightarrow> Some (Suc i)))"

text \<open>
  Adding the elements of an array to a JavaScript \<open>Set\<close> one by one: a \<open>Set\<close> iterates in
  insertion order and ignores an element it already holds. \<open>new Set(arr)\<close> is
  \<open>set_add_all [] arr\<close>, and \<open>Array.from\<close> of the set is the list itself.
\<close>

fun set_add_all :: "'a list \<Rightarrow> 'a list \<Rightarrow> 'a list" where
  "set_add_all acc [] = acc"
| "set_add_all acc (x # xs) = set_add_all (if x \<in> set acc then acc else acc @ [x]) xs"


section \<open>Project identifiers (project-id.js)\<close>

text \<open>The part of a \<open>Date\<close> that \<open>generateProjectId\<close> reads: \<open>getFullYear()\<close> and
  \<open>getMonth()\<close> (0 to 11).\<close>

record jsdate =
  getFullYear :: int
  getMonth :: nat

text \<open>The object literal \<open>PLATFORM_CODES\<close>, in the order of its keys.\<close>

definition PLATFORM_CODES :: "(string \<times> char) list" where
  "PLATFORM_CODES =
     [(''WEB'', CHR ''W''), (''DATABASE'', CHR ''D''), (''API'', CHR ''A''),
      (''ZHONG'', CHR ''Z''), (''UNITY'', CHR ''U'')]"

text \<open>\<open>PLATFORM_CODES[type?.toUpperCase()] || 'X'\<close>; an absent type looks up nothing.\<close>

definition getPlatformCode :: "string option \<Rightarrow> char" where
  "getPlatformCode ty =
     (case ty of
        None \<Rightarrow> CHR ''X''
      | Some t \<Rightarrow> (case map_of PLATFORM_CODES (toUpperCase t) of
                     None \<Rightarrow> CHR ''X''
                   | Some c \<Rightarrow> c))"

definition generateProjectId :: "jsdate \<Rightarrow> string option \<Rightarrow> int \<Rightarrow> string" where
  "generateProjectId date ty projectNumber =
     (let year = slice_last2 (show_int (getFullYear date));
          month = getMonth date;
          quarter = month div 3 + 1;
          platformCode = getPlatformCode ty;
          paddedNumber = padStart2 (show_int projectNumber)
      in year @ ''Q'' @ show_nat quarter @ [platformCode] @ paddedNumber)"

record parsed_id =
  year :: nat
  quarter :: nat
  platformCode :: char
  platformType :: string
  projectNumber :: nat
  fullYear :: nat
  quarterLabel :: string

definition codeToPrimaryName :: "(char \<times> string) list" where
  "codeToPrimaryName =
     [(CHR ''W'', ''WEB''), (CHR ''D'', ''DATABASE''), (CHR ''A'', ''API''),
      (CHR ''U'', ''UNITY''), (CHR ''Z'', ''ZHONG'')]"

text \<open>
  The reverse lookup: the primary name, else the first key of \<open>PLATFORM_CODES\<close> with that
  code, else \<open>'UNKNOWN'\<close>.
\<close>

definition lookupPlatformType :: "char \<Rightarrow> string" where
  "lookupPlatformType code =
     (case map_of codeToPrimaryName code of
        Some name \<Rightarrow> name
      | None \<Rightarrow> (case find (\<lambda>(_, c). c = code) PLATFORM_CODES of
                   Some (name, _) \<Rightarrow> name
                 | None \<Rightarrow> ''UNKNOWN''))"

text \<open>
  The regular expression \<open>/^(\d{2})Q(\d)([A-Z])(\d{2})$/\<close> accepts exactly the strings of
  seven characters of that shape; no match returns \<open>null\<close>.
\<close>

definition parseProjectId :: "string \<Rightarrow> parsed_id option" where
  "parseProjectId projectId =
     (case projectId of
        [y1, y2, q, qd, p, n1, n2] \<Rightarrow>
          if is_digit y1 \<and> is_digit y2 \<and> q = CHR ''Q'' \<and> is_digit qd \<and> is_upper p
             \<and> is_digit n1 \<and> is_digit n2
          then
            (let yr = parseInt (''20'' @ [y1, y2]);
                 qtr = parseInt [qd]
             in Some \<lparr>year = yr, quarter = qtr, platformCode = p,
                      platformType = lookupPlatformType p,
                      projectNumber = parseInt [n1, n2],
                      fullYear = yr, quarterLabel = ''Q'' @ show_nat qtr\<rparr>)
          else None
      | _ \<Rightarrow> None)"


section \<open>Entry store (cursor-token-tracker.js)\<close>

text \<open>
  A logged entry. Timestamps are ISO strings in the source; the model keeps the instant
  they denote, in epoch milliseconds, which is what every comparison in the code uses
  (\<open>new Date(e.timestamp)\<close>). \<open>entryId\<close> is \<open>metadata?.entryId\<close>, absent on entries
  imported by \<open>syncFromCursorDatabase\<close>.
\<close>

record entry =
  timestamp :: int
  tokensUsed :: int
  model :: string
  operation :: string
  project :: string
  file_name :: "string option"
  entryId :: "string option"

record history_options =
  opt_startDate :: "int option"
  opt_endDate :: "int option"
  opt_project :: "string option"
  opt_operation :: "string option"

text \<open>
  \<open>getTokenHistory(options).entries\<close>: the stored log, copied and filtered. An empty
  project or operation label is falsy and filters nothing. \<open>hist\<close> is what
  \<open>loadHistory()\<close> returns (the empty log when the store is missing or corrupt).
\<close>

definition getTokenHistory :: "history_options \<Rightarrow> entry list \<Rightarrow> entry list" where
  "getTokenHistory options hist =
     (let entries = hist;
          entries = (case opt_startDate options of
                       Some startDate \<Rightarrow> filter (\<lambda>e. timestamp e \<ge> startDate) entries
                     | None \<Rightarrow> entries);
          entries = (case opt_endDate options of
                       Some endDate \<Rightarrow> filter (\<lambda>e. timestamp e \<le> endDate) entries
                     | None \<Rightarrow> entries);
          entries = (case opt_project options of
                       Some p \<Rightarrow> if p \<noteq> [] then filter (\<lambda>e. project e = p) entries else entries
                     | None \<Rightarrow> entries);
          entries = (case opt_operation options of
                       Some p \<Rightarrow> if p \<noteq> [] then filter (\<lambda>e. operation e = p) entries else entries
                     | None \<Rightarrow> entries)
      in entries)"

text \<open>
  The filter as the specification words it: a time range with inclusive bounds, a project
  label and an operation label, each optional.
\<close>

definition matchesFilter :: "history_options \<Rightarrow> entry \<Rightarrow> bool" where
  "matchesFilter options e =
     ((case opt_startDate options of None \<Rightarrow> True | Some a \<Rightarrow> a \<le> timestamp e)
      \<and> (case opt_endDate options of None \<Rightarrow> True | Some b \<Rightarrow> timestamp e \<le> b)
      \<and> (case opt_project options of None \<Rightarrow> True | Some p \<Rightarrow> project e = p)
      \<and> (case opt_operation options of None \<Rightarrow> True | Some p \<Rightarrow> operation e = p))"

text \<open>
  The options with an empty label taken for an absent one, which is how the guards
  \<open>if (options.project)\<close> and \<open>if (options.operation)\<close> of the source read them.
\<close>

definition ignoreEmptyLabels :: "history_options \<Rightarrow> history_options" where
  "ignoreEmptyLabels options =
     options\<lparr>opt_project := (if opt_project options = Some [] then None else opt_project options),
             opt_operation :=
               (if opt_operation options = Some [] then None else opt_operation options)\<rparr>"

definition no_options :: history_options where
  "no_options = \<lparr>opt_startDate = None, opt_endDate = None, opt_project = None, opt_operation = None\<rparr>"


section \<open>Session store (session-manager.js)\<close>

record activity =
  act_timestamp :: int
  act_type :: string
  act_description :: string
  act_metadata :: "(string \<times> string) list"

text \<open>
  A stored session document. \<open>sid\<close> is the field \<open>id\<close>. \<open>startTime\<close>, \<open>endTime\<close> and the
  timestamp of an activity are ISO strings in the source; the model keeps the instants
  they denote, in epoch milliseconds. A field that a document may lack (\<open>undefined\<close> or
  \<open>null\<close>) is an option.
\<close>

record session =
  sid :: string
  startTime :: int
  endTime :: "int option"
  projectId :: "int option"
  projectCode :: "string option"
  projectName :: "string option"
  description :: string
  conversationId :: "string option"
  tokenEntries :: "string list option"
  totalTokens :: "int option"
  activities :: "activity list option"
  tags :: "string list"
  metadata :: "(string \<times> string) list"
  promptGroups :: "string list option"

text \<open>
  One storage tier: the session list (\<open>None\<close> when the key or file is absent), the
  active-session pointer as \<open>getActiveSessionId\<close> reads it (\<open>None\<close> when absent), and
  the entry log.
\<close>

record store =
  sessionsFile :: "session list option"
  activeSession :: "string option"
  tokenHistory :: "entry list"

text \<open>
  Where the code runs. In a browser \<open>typeof window !== 'undefined'\<close> holds and the storage
  helpers use \<open>localStorage\<close>. Under Node they ask \<open>getNodeModules()\<close> for \<open>fs\<close>, \<open>path\<close> and
  \<open>os\<close>, which calls \<open>require\<close> inside a function built with \<open>new Function\<close>. The body of
  such a function sees the global scope only, so the call succeeds when a global
  \<open>require\<close> exists (the flag of \<open>Node\<close>) and throws otherwise; the exception is caught
  and \<open>getNodeModules()\<close> returns \<open>null\<close>. A module run by \<open>node\<close> has no global \<open>require\<close>:
  the scripts of the repository run as \<open>Node False\<close>.
\<close>

datatype runtime = Browser | Node bool

definition getNodeModules :: "runtime \<Rightarrow> bool" where
  "getNodeModules rt = (case rt of Browser \<Rightarrow> False | Node globalRequire \<Rightarrow> globalRequire)"

text \<open>The helpers reach their storage tier in a browser, and under Node with modules.\<close>

definition reachesStorage :: "runtime \<Rightarrow> bool" where
  "reachesStorage rt = (rt = Browser \<or> getNodeModules rt)"

text \<open>The runtime, the clock and the random suffix that a call reads.\<close>

record env =
  now :: int
  rnd :: string
  host :: runtime

definition SESSION_TIMEOUT_MS :: int where
  "SESSION_TIMEOUT_MS = 2 * 60 * 60 * 1000"

text \<open>Truthiness of a string that may be \<open>null\<close>: \<open>null\<close> and \<open>''\<close> are falsy.\<close>

definition truthy :: "string option \<Rightarrow> bool" where
  "truthy x = (case x of None \<Rightarrow> False | Some s \<Rightarrow> s \<noteq> [])"

definition generateSessionId :: "env \<Rightarrow> string" where
  "generateSessionId e = ''session_'' @ show_int (now e) @ ''_'' @ rnd e"

text \<open>The session list that a tier holds: empty when the key or file is absent.\<close>

definition storedSessions :: "store \<Rightarrow> session list" where
  "storedSessions st = (case sessionsFile st of None \<Rightarrow> [] | Some sessions \<Rightarrow> sessions)"

text \<open>
  The four storage helpers, each with its three branches: \<open>localStorage\<close> in a browser,
  the early return when \<open>getNodeModules()\<close> is \<open>null\<close>, the file otherwise.
\<close>

definition loadSessions :: "runtime \<Rightarrow> store \<Rightarrow> session list" where
  "loadSessions rt st =
     (if rt = Browser then storedSessions st
      else if \<not> getNodeModules rt then []
      else storedSessions st)"

definition saveSessions :: "runtime \<Rightarrow> session list \<Rightarrow> store \<Rightarrow> store" where
  "saveSessions rt sessions st =
     (if rt = Browser then st\<lparr>sessionsFile := Some sessions\<rparr>
      else if \<not> getNodeModules rt then st
      else st\<lparr>sessionsFile := Some sessions\<rparr>)"

definition getActiveSessionId :: "runtime \<Rightarrow> store \<Rightarrow> string option" where
  "getActiveSessionId rt st =
     (if rt = Browser then activeSession st
      else if \<not> getNodeModules rt then None
      else activeSession st)"

definition setActiveSessionId :: "runtime \<Rightarrow> string option \<Rightarrow> store \<Rightarrow> store" where
  "setActiveSessionId rt sessionId st =
     (if rt = Browser then
        (if truthy sessionId then st\<lparr>activeSession := sessionId\<rparr>
         else st\<lparr>activeSession := None\<rparr>)
      else if \<not> getNodeModules rt then st
      else (if truthy sessionId then st\<lparr>activeSession := sessionId\<rparr>
            else st\<lparr>activeSession := None\<rparr>))"

text \<open>
  \<open>loadHistory().entries\<close> of the tracker, which is what \<open>getTokenHistory()\<close> hands to the
  session manager. In a browser it is the stored log. Under Node the tracker evaluates
  \<open>require('module')\<close> with a direct \<open>eval\<close>, in a block that declares its own constant
  \<open>require\<close> two lines further down: the name is read before its declaration, the
  exception is caught, no module is loaded and the log comes back empty.
\<close>

definition loadHistory :: "runtime \<Rightarrow> store \<Rightarrow> entry list" where
  "loadHistory rt st = (if rt = Browser then tokenHistory st else [])"

text \<open>
  \<open>new Session(data)\<close> on a stored document: every \<open>data.f || default\<close> of the
  constructor. A session object has no \<open>promptGroups\<close>.
\<close>

definition or_null :: "string option \<Rightarrow> string option" where
  "or_null x = (if truthy x then x else None)"

definition Session :: "env \<Rightarrow> session \<Rightarrow> session" where
  "Session e data =
     \<lparr>sid = (if sid data \<noteq> [] then sid data else generateSessionId e),
      startTime = startTime data,
      endTime = endTime data,
      projectId = (if projectId data = Some 0 then None else projectId data),
      projectCode = or_null (projectCode data),
      projectName = or_null (projectName data),
      description = description data,
      conversationId = or_null (conversationId data),
      tokenEntries = Some (case tokenEntries data of None \<Rightarrow> [] | Some l \<Rightarrow> l),
      totalTokens = Some (case totalTokens data of None \<Rightarrow> 0 | Some n \<Rightarrow> n),
      activities = Some (case activities data of None \<Rightarrow> [] | Some l \<Rightarrow> l),
      tags = tags data,
      metadata = metadata data,
      promptGroups = None\<rparr>"

record start_options =
  o_projectId :: "int option"
  o_projectCode :: "string option"
  o_projectName :: "string option"
  o_description :: "string option"
  o_conversationId :: "string option"
  o_tags :: "string list option"

text \<open>
  \<open>new Session({projectId, projectCode, projectName, description, conversationId, tags})\<close>
  as \<open>startSession\<close> calls it: the id is generated and the start time is the clock.
\<close>

definition newSession :: "env \<Rightarrow> start_options \<Rightarrow> session" where
  "newSession e options =
     \<lparr>sid = generateSessionId e,
      startTime = now e,
      endTime = None,
      projectId = (if o_projectId options = Some 0 then None else o_projectId options),
      projectCode = or_null (o_projectCode options),
      projectName = or_null (o_projectName options),
      description = (case o_description options of None \<Rightarrow> [] | Some d \<Rightarrow> d),
      conversationId = or_null (o_conversationId options),
      tokenEntries = Some [],
      totalTokens = Some 0,
      activities = Some [],
      tags = (case o_tags options of None \<Rightarrow> [] | Some t \<Rightarrow> t),
      metadata = [],
      promptGroups = None\<rparr>"

text \<open>
  The sum that \<open>endSession\<close> and the sweep compute: for each referenced id the first
  entry of the log with that \<open>entryId\<close>, unresolved ids dropped, \<open>tokensUsed\<close> added up;
  \<open>0\<close> when the session has no \<open>tokenEntries\<close>.
\<close>

definition sessionTokens :: "entry list \<Rightarrow> session \<Rightarrow> int" where
  "sessionTokens hist s =
     (case tokenEntries s of
        None \<Rightarrow> 0
      | Some ids \<Rightarrow>
          sum_list (map tokensUsed
            (List.map_filter (\<lambda>i. find (\<lambda>e. entryId e = Some i) hist) ids)))"

text \<open>The contribution of one referenced id to that sum.\<close>

definition tokensOfId :: "entry list \<Rightarrow> string \<Rightarrow> int" where
  "tokensOfId hist i =
     (case find (\<lambda>e. entryId e = Some i) hist of None \<Rightarrow> 0 | Some e \<Rightarrow> tokensUsed e)"

text \<open>
  The block shared by \<open>endSession\<close> and \<open>checkAndEndTimedOutSessions\<close>: recompute only
  when \<open>totalTokens\<close> is unset or zero, and adopt the sum only when it is positive.
\<close>

definition finalizeTokens :: "entry list \<Rightarrow> session \<Rightarrow> session" where
  "finalizeTokens hist s =
     (if totalTokens s = None \<or> totalTokens s = Some 0
      then (if sessionTokens hist s > 0 then s\<lparr>totalTokens := Some (sessionTokens hist s)\<rparr> else s)
      else s)"

text \<open>\<open>Math.max(...xs)\<close> of a non-empty list.\<close>

fun Math_max :: "int \<Rightarrow> int list \<Rightarrow> int" where
  "Math_max x [] = x"
| "Math_max x (y # ys) = Math_max (max x y) ys"

text \<open>\<open>ids.includes(x)\<close> for an \<open>x\<close> that may be \<open>undefined\<close>; the ids are strings.\<close>

definition includesId :: "string list \<Rightarrow> string option \<Rightarrow> bool" where
  "includesId ids x = (case x of None \<Rightarrow> False | Some k \<Rightarrow> k \<in> set ids)"

definition getLastActivityTime :: "entry list \<Rightarrow> session \<Rightarrow> int" where
  "getLastActivityTime hist s =
     (let lastActivity = startTime s;
          lastActivity =
            (case activities s of
               Some (a # acts) \<Rightarrow>
                 (let latestActivity = Math_max (act_timestamp a) (map act_timestamp acts)
                  in if latestActivity > lastActivity then latestActivity else lastActivity)
             | _ \<Rightarrow> lastActivity);
          lastActivity =
            (case tokenEntries s of
               Some (i # ids) \<Rightarrow>
                 (case filter (\<lambda>e. includesId (i # ids) (entryId e)) hist of
                    [] \<Rightarrow> lastActivity
                  | t # ts \<Rightarrow>
                      (let latestToken = Math_max (timestamp t) (map timestamp ts)
                       in if latestToken > lastActivity then latestToken else lastActivity))
             | _ \<Rightarrow> lastActivity)
      in lastActivity)"

text \<open>\<open>Math.round(inactiveMs / (60 * 60 * 1000))\<close>: halves round up.\<close>

definition roundHours :: "int \<Rightarrow> int" where
  "roundHours inactiveMs = (inactiveMs + 1800000) div 3600000"

text \<open>What the sweep writes into a session that has timed out.\<close>

definition autoEnd :: "int \<Rightarrow> entry list \<Rightarrow> int \<Rightarrow> session \<Rightarrow> session" where
  "autoEnd t hist inactiveMs s =
     (let s1 = finalizeTokens hist s
      in s1\<lparr>endTime := Some t,
            description :=
              (if description s1 \<noteq> [] then description s1
               else ''Auto-ended after '' @ show_int (roundHours inactiveMs)
                    @ '' hours of inactivity'')\<rparr>)"

text \<open>
  The \<open>forEach\<close> of the sweep over the loaded sessions. It carries the tier along, since
  each auto-end reads the pointer again and clears it when it names the session being
  ended. The result is the session array, the ids of the sessions ended, and the tier.
\<close>

fun sweepEach ::
  "runtime \<Rightarrow> int \<Rightarrow> int \<Rightarrow> entry list \<Rightarrow> session list \<Rightarrow> store
     \<Rightarrow> session list \<times> string list \<times> store" where
  "sweepEach rt timeoutMs t hist [] st = ([], [], st)"
| "sweepEach rt timeoutMs t hist (s # ss) st =
     (if endTime s \<noteq> None then
        (case sweepEach rt timeoutMs t hist ss st of
           (ss', ended, st') \<Rightarrow> (s # ss', ended, st'))
      else
        (let inactiveMs = t - getLastActivityTime hist s in
         if inactiveMs \<ge> timeoutMs then
           (case sweepEach rt timeoutMs t hist ss
                   (if getActiveSessionId rt st = Some (sid s)
                    then setActiveSessionId rt None st else st) of
              (ss', ended, st') \<Rightarrow> (autoEnd t hist inactiveMs s # ss', sid s # ended, st'))
         else
           (case sweepEach rt timeoutMs t hist ss st of
              (ss', ended, st') \<Rightarrow> (s # ss', ended, st'))))"

definition checkAndEndTimedOutSessions :: "int \<Rightarrow> env \<Rightarrow> store \<Rightarrow> string list \<times> store" where
  "checkAndEndTimedOutSessions timeoutMs e st =
     (case sweepEach (host e) timeoutMs (now e) (loadHistory (host e) st)
             (loadSessions (host e) st) st of
        (sessions, endedSessions, st') \<Rightarrow>
          (endedSessions,
           (if endedSessions \<noteq> [] then saveSessions (host e) sessions st' else st')))"

text \<open>
  The condition under which the sweep ends a session, and the last activity as the
  specification words it: the maximum of the start time, the activity timestamps and the
  timestamps of the logged entries that the session references.
\<close>

definition timedOut :: "int \<Rightarrow> int \<Rightarrow> entry list \<Rightarrow> session \<Rightarrow> bool" where
  "timedOut timeoutMs t hist s =
     (endTime s = None \<and> t - getLastActivityTime hist s \<ge> timeoutMs)"

definition referencedEntries :: "entry list \<Rightarrow> session \<Rightarrow> entry list" where
  "referencedEntries hist s =
     filter (\<lambda>e. includesId (case tokenEntries s of None \<Rightarrow> [] | Some l \<Rightarrow> l) (entryId e)) hist"



text \<open>The effect of one iteration of the sweep on the session it visits.\<close>

definition sweepSession :: "int \<Rightarrow> int \<Rightarrow> entry list \<Rightarrow> session \<Rightarrow> session" where
  "sweepSession timeoutMs t hist s =
     (if timedOut timeoutMs t hist s then autoEnd t hist (t - getLastActivityTime hist s) s else s)"

definition startSession :: "env \<Rightarrow> start_options \<Rightarrow> store \<Rightarrow> session \<times> store" where
  "startSession e options st =
     (let st1 = snd (checkAndEndTimedOutSessions SESSION_TIMEOUT_MS e st);
          activeId = getActiveSessionId (host e) st1;
          active = (if truthy activeId
                    then find (\<lambda>s. Some (sid s) = activeId) (loadSessions (host e) st1)
                    else None)
      in case active of
           Some a \<Rightarrow>
             if endTime a = None then (Session e a, st1)
             else (let session = newSession e options
                   in (session,
                       setActiveSessionId (host e) (Some (sid session))
                         (saveSessions (host e) (loadSessions (host e) st1 @ [session]) st1)))
         | None \<Rightarrow>
             (let session = newSession e options
              in (session,
                  setActiveSessionId (host e) (Some (sid session))
                    (saveSessions (host e) (loadSessions (host e) st1 @ [session]) st1))))"

definition endSession :: "env \<Rightarrow> string option \<Rightarrow> store \<Rightarrow> session option \<times> store" where
  "endSession e optDescription st =
     (let activeId = getActiveSessionId (host e) st in
      if \<not> truthy activeId then (None, st)
      else
        (let sessions = loadSessions (host e) st in
         case findIndex (\<lambda>s. Some (sid s) = activeId) sessions of
           None \<Rightarrow> (None, setActiveSessionId (host e) None st)
         | Some sessionIndex \<Rightarrow>
             (let session = sessions ! sessionIndex in
              if endTime session \<noteq> None
              then (Some (Session e session), setActiveSessionId (host e) None st)
              else
                (let session = (if truthy optDescription
                                then session\<lparr>description :=
                                       (case optDescription of Some d \<Rightarrow> d | None \<Rightarrow> [])\<rparr>
                                else session);
                     session = finalizeTokens (loadHistory (host e) st) session;
                     session = session\<lparr>endTime := Some (now e)\<rparr>
                 in (Some (Session e session),
                     setActiveSessionId (host e) None
                       (saveSessions (host e) (sessions[sessionIndex := session]) st))))))"

definition getActiveSession :: "env \<Rightarrow> store \<Rightarrow> session option \<times> store" where
  "getActiveSession e st =
     (let st1 = snd (checkAndEndTimedOutSessions SESSION_TIMEOUT_MS e st);
          activeId = getActiveSessionId (host e) st1
      in if \<not> truthy activeId then (None, st1)
         else (case find (\<lambda>s. Some (sid s) = activeId \<and> endTime s = None)
                      (loadSessions (host e) st1) of
                 Some s \<Rightarrow> (Some (Session e s), st1)
               | None \<Rightarrow> (None, st1)))"

definition addTokenEntryToSession :: "env \<Rightarrow> string \<Rightarrow> string \<Rightarrow> store \<Rightarrow> bool \<times> store" where
  "addTokenEntryToSession e sessionId newEntryId st =
     (let st1 = snd (checkAndEndTimedOutSessions SESSION_TIMEOUT_MS e st);
          sessions = loadSessions (host e) st1
      in case findIndex (\<lambda>s. sid s = sessionId) sessions of
           None \<Rightarrow> (False, st1)
         | Some sessionIndex \<Rightarrow>
             (let s = sessions ! sessionIndex in
              if endTime s \<noteq> None then (False, st1)
              else
                (let entries = (case tokenEntries s of None \<Rightarrow> [] | Some l \<Rightarrow> l) in
                 if newEntryId \<notin> set entries
                 then (True,
                       saveSessions (host e)
                         (sessions[sessionIndex := s\<lparr>tokenEntries := Some (entries @ [newEntryId])\<rparr>])
                         st1)
                 else (True, st1))))"

record activity_input =
  in_type :: string
  in_description :: "string option"
  in_metadata :: "(string \<times> string) list option"

definition addActivityToSession :: "env \<Rightarrow> string \<Rightarrow> activity_input \<Rightarrow> store \<Rightarrow> bool \<times> store" where
  "addActivityToSession e sessionId act st =
     (let st1 = snd (checkAndEndTimedOutSessions SESSION_TIMEOUT_MS e st);
          sessions = loadSessions (host e) st1
      in case findIndex (\<lambda>s. sid s = sessionId) sessions of
           None \<Rightarrow> (False, st1)
         | Some sessionIndex \<Rightarrow>
             (let s = sessions ! sessionIndex in
              if endTime s \<noteq> None then (False, st1)
              else
                (let acts = (case activities s of None \<Rightarrow> [] | Some l \<Rightarrow> l);
                     a = \<lparr>act_timestamp = now e,
                          act_type = in_type act,
                          act_description =
                            (case in_description act of None \<Rightarrow> [] | Some d \<Rightarrow> d),
                          act_metadata =
                            (case in_metadata act of None \<Rightarrow> [] | Some m \<Rightarrow> m)\<rparr>
                 in (True,
                     saveSessions (host e)
                       (sessions[sessionIndex := s\<lparr>activities := Some (acts @ [a])\<rparr>])
                       st1))))"


section \<open>Reconciler (scripts/sync-tokens-to-session.js)\<close>

text \<open>A row of the table \<open>ai_code_hashes\<close> of the IDE's tracking database.\<close>

record row =
  hash :: "string option"
  row_model :: "string option"
  fileName :: "string option"
  fileExtension :: "string option"
  source :: "string option"
  createdAt :: int
  row_conversationId :: "string option"
  row_requestId :: "string option"

datatype sync_error =
    NoActiveSession
  | SessionsFileNotFound
  | ActiveSessionNotFound
  | DatabaseNotFound
  | HashMissing

text \<open>
  The query of the script: the rows with \<open>createdAt >= ?\<close> in ascending order of
  \<open>createdAt\<close>. Its \<open>SELECT\<close> list has no \<open>requestId\<close>, so that property is \<open>undefined\<close>
  on every row the script sees.
\<close>

definition queryRows :: "row list \<Rightarrow> int \<Rightarrow> row list" where
  "queryRows table sessionStartTimestamp =
     map (\<lambda>r. r\<lparr>row_requestId := None\<rparr>)
       (sort_key createdAt (filter (\<lambda>r. createdAt r \<ge> sessionStartTimestamp) table))"

text \<open>\<open>`entry_${row.createdAt}_${row.hash.substring(0, 8)}`\<close>, for a hash \<open>h\<close>.\<close>

definition makeEntryId :: "int \<Rightarrow> string \<Rightarrow> string" where
  "makeEntryId created h = ''entry_'' @ show_int created @ ''_'' @ take 8 h"

text \<open>\<open>Math.ceil(codeLength / 4)\<close> with \<open>codeLength = row.source ? row.source.length : 0\<close>.\<close>

definition codeLength :: "row \<Rightarrow> int" where
  "codeLength r = (case source r of None \<Rightarrow> 0 | Some src \<Rightarrow> int (length src))"

definition estimatedTokens :: "row \<Rightarrow> int" where
  "estimatedTokens r = (codeLength r + 3) div 4"

definition promptKey :: "row \<Rightarrow> string" where
  "promptKey r =
     (if truthy (row_conversationId r) \<and> truthy (row_requestId r)
      then (case row_conversationId r of None \<Rightarrow> [] | Some c \<Rightarrow> c) @ ''_''
           @ (case row_requestId r of None \<Rightarrow> [] | Some q \<Rightarrow> q)
      else ''prompt_'' @ show_int (createdAt r div 60000))"

text \<open>
  The \<open>rows.forEach\<close> of the script, with its three accumulators: \<open>newTokens\<close>,
  \<open>newEntryIds\<close> and the keys of the map \<open>promptGroups\<close> in insertion order.
  \<open>row.hash.substring\<close> throws on a row without hash, before anything is written.
\<close>

fun processRows ::
  "string list \<Rightarrow> row list \<Rightarrow> int \<times> string list \<times> string list
     \<Rightarrow> sync_error + (int \<times> string list \<times> string list)" where
  "processRows existingIds [] acc = Inr acc"
| "processRows existingIds (r # rs) (newTokens, newEntryIds, promptGroupKeys) =
     (case hash r of
        None \<Rightarrow> Inl HashMissing
      | Some h \<Rightarrow>
          (let entryId = makeEntryId (createdAt r) h in
           if entryId \<notin> set existingIds
           then processRows existingIds rs
                  (newTokens + estimatedTokens r,
                   newEntryIds @ [entryId],
                   (if promptKey r \<in> set promptGroupKeys then promptGroupKeys
                    else promptGroupKeys @ [promptKey r]))
           else processRows existingIds rs (newTokens, newEntryIds, promptGroupKeys)))"

text \<open>What the script writes into the active session after the loop.\<close>

definition applySync :: "int \<times> string list \<times> string list \<Rightarrow> session \<Rightarrow> session" where
  "applySync res s =
     (case res of
        (newTokens, newEntryIds, promptGroupKeys) \<Rightarrow>
          (let existingPromptGroups =
                 set_add_all [] (case promptGroups s of None \<Rightarrow> [] | Some g \<Rightarrow> g);
               previousTokens = (case totalTokens s of None \<Rightarrow> 0 | Some n \<Rightarrow> n)
           in s\<lparr>promptGroups := Some (set_add_all existingPromptGroups promptGroupKeys),
                tokenEntries :=
                  Some ((case tokenEntries s of None \<Rightarrow> [] | Some l \<Rightarrow> l) @ newEntryIds),
                totalTokens := Some (previousTokens + newTokens)\<rparr>))"

text \<open>
  \<open>main\<close>: the sweep, the lookup of the active session in the file tier, the query, the
  loop and the write. The sweep is the session manager's and goes through its storage
  helpers in the runtime of the call; everything after it reads and writes the two files
  with the script's own \<open>fs\<close>. The result is the error that ends the script (\<open>None\<close> when
  it completes) and the file tier it leaves behind. \<open>db\<close> is the table of the tracking
  database, \<open>None\<close> when the database file is missing.
\<close>

definition main :: "env \<Rightarrow> row list option \<Rightarrow> store \<Rightarrow> sync_error option \<times> store" where
  "main e db st =
     (let st1 = snd (checkAndEndTimedOutSessions SESSION_TIMEOUT_MS e st) in
      case activeSession st1 of
        None \<Rightarrow> (Some NoActiveSession, st1)
      | Some activeSessionId \<Rightarrow>
          (case sessionsFile st1 of
             None \<Rightarrow> (Some SessionsFileNotFound, st1)
           | Some sessions \<Rightarrow>
               (case findIndex (\<lambda>s. sid s = activeSessionId \<and> endTime s = None) sessions of
                  None \<Rightarrow> (Some ActiveSessionNotFound, st1)
                | Some sessionIndex \<Rightarrow>
                    (let activeSession = sessions ! sessionIndex in
                     case db of
                       None \<Rightarrow> (Some DatabaseNotFound, st1)
                     | Some table \<Rightarrow>
                         (let rows = queryRows table (startTime activeSession) in
                          if rows = [] then (None, st1)
                          else
                            (let existingIds =
                                   (case tokenEntries activeSession of None \<Rightarrow> [] | Some l \<Rightarrow> l)
                             in case processRows existingIds rows (0, [], []) of
                                  Inl err \<Rightarrow> (Some err, st1)
                                | Inr res \<Rightarrow>
                                    (None,
                                     st1\<lparr>sessionsFile :=
                                       Some (sessions[sessionIndex := applySync res activeSession])\<rparr>)))))))"

text \<open>
  The derived id of a row that has a hash, the rows of a pass that are new to a session
  (derived id not among its \<open>tokenEntries\<close>), and \<open>totalTokens || 0\<close>.
\<close>

definition rowEntryId :: "row \<Rightarrow> string" where
  "rowEntryId r = (case hash r of None \<Rightarrow> [] | Some h \<Rightarrow> makeEntryId (createdAt r) h)"

definition isNewRow :: "session \<Rightarrow> row \<Rightarrow> bool" where
  "isNewRow s r =
     (rowEntryId r \<notin> set (case tokenEntries s of None \<Rightarrow> [] | Some l \<Rightarrow> l))"

definition previousTokens :: "session \<Rightarrow> int" where
  "previousTokens s = (case totalTokens s of None \<Rightarrow> 0 | Some n \<Rightarrow> n)"

text \<open>
  What a completed pass leaves in the active session, given the rows it fetched: the
  session itself when there are no rows, else the session with the totals of the rows
  that are new to it.
\<close>

definition syncResult :: "session \<Rightarrow> row list \<Rightarrow> int \<times> string list \<times> string list" where
  "syncResult s rows =
     (sum_list (map estimatedTokens (filter (isNewRow s) rows)),
      map rowEntryId (filter (isNewRow s) rows),
      set_add_all [] (map promptKey (filter (isNewRow s) rows)))"

definition reconciled :: "session \<Rightarrow> row list \<Rightarrow> session" where
  "reconciled s rows = (if rows = [] then s else applySync (syncResult s rows) s)"

text \<open>The session that \<open>main\<close> works on: the first open session the pointer names.\<close>

definition activeSessionOf :: "store \<Rightarrow> session option" where
  "activeSessionOf st =
     (case activeSession st of
        None \<Rightarrow> None
      | Some activeSessionId \<Rightarrow>
          find (\<lambda>s. sid s = activeSessionId \<and> endTime s = None) (storedSessions st))"


text \<open>The sessions of a tier that are active in the specification's sense: no end time.\<close>

definition openSessions :: "store \<Rightarrow> session list" where
  "openSessions st = filter (\<lambda>s. endTime s = None) (storedSessions st)"


section \<open>Sync bridge (syncSessionsFromFileSystem in App.jsx)\<close>

text \<open>The body of the response of \<open>/api/sessions\<close>.\<close>

record api_data =
  data_sessions :: "session list option"
  data_activeSessionId :: "string option"

text \<open>
  The merge of the file tier into the browser cache. \<open>response\<close> is \<open>None\<close> outside
  development mode and when the request fails; the function then leaves the cache alone,
  as it does when the file tier sends no session.
\<close>

definition syncSessionsFromFileSystem :: "api_data option \<Rightarrow> store \<Rightarrow> store" where
  "syncSessionsFromFileSystem response cache =
     (case response of
        None \<Rightarrow> cache
      | Some d \<Rightarrow>
          (case data_sessions d of
             None \<Rightarrow> cache
           | Some fileSessions \<Rightarrow>
               if length fileSessions > 0 then
                 (let existingSessions = storedSessions cache;
                      existingIds = map sid existingSessions;
                      newSessions = filter (\<lambda>s. sid s \<notin> set existingIds) fileSessions;
                      updatedSessions =
                        map (\<lambda>existing.
                               case find (\<lambda>s. sid s = sid existing) fileSessions of
                                 Some updated \<Rightarrow> updated
                               | None \<Rightarrow> existing) existingSessions;
                      mergedSessions = updatedSessions @ newSessions;
                      cache1 = cache\<lparr>sessionsFile := Some mergedSessions\<rparr>
                  in if truthy (data_activeSessionId d)
                     then cache1\<lparr>activeSession := data_activeSessionId d\<rparr>
                     else cache1)
               else cache))"


section \<open>Example data\<close>

definition exampleSession :: "string \<Rightarrow> int \<Rightarrow> session" where
  "exampleSession i t =
     \<lparr>sid = i, startTime = t, endTime = None, projectId = None, projectCode = None,
      projectName = None, description = [], conversationId = None, tokenEntries = Some [],
      totalTokens = Some 0, activities = Some [], tags = [], metadata = [],
      promptGroups = None\<rparr>"

definition exampleEntry :: "string \<Rightarrow> int \<Rightarrow> int \<Rightarrow> entry" where
  "exampleEntry i t n =
     \<lparr>timestamp = t, tokensUsed = n, model = ''unknown'', operation = ''code-generation'',
      project = ''zhong'', file_name = None, entryId = Some i\<rparr>"

definition exampleRow :: "string \<Rightarrow> int \<Rightarrow> string \<Rightarrow> row" where
  "exampleRow h t src =
     \<lparr>hash = Some h, row_model = None, fileName = None, fileExtension = None,
      source = Some src, createdAt = t, row_conversationId = None, row_requestId = None\<rparr>"

text \<open>
  A file tier three hours after session \<open>a\<close> started: \<open>a\<close> is open and has seen no
  activity, \<open>b\<close> has ended, \<open>c\<close> started an hour ago, and the pointer names \<open>a\<close>.
\<close>

definition exampleStore :: store where
  "exampleStore =
     \<lparr>sessionsFile = Some [exampleSession ''a'' 0,
                           (exampleSession ''b'' 0)\<lparr>endTime := Some 50\<rparr>,
                           exampleSession ''c'' 7200000],
      activeSession = Some ''a'', tokenHistory = []\<rparr>"

definition exampleEnv :: env where
  "exampleEnv = \<lparr>now = 10800000, rnd = ''k3x9q'', host = Browser\<rparr>"

text \<open>
  A tier in which the open session \<open>w\<close> references two logged entries and has no total
  yet, next to the ended session \<open>b\<close>.
\<close>

definition workStore :: store where
  "workStore =
     \<lparr>sessionsFile = Some [(exampleSession ''w'' 0)\<lparr>tokenEntries := Some [''e1'', ''e2'']\<rparr>,
                           (exampleSession ''b'' 0)\<lparr>endTime := Some 50\<rparr>],
      activeSession = Some ''w'',
      tokenHistory = [exampleEntry ''e1'' 1000 100, exampleEntry ''e2'' 2000 50]\<rparr>"

definition exampleOptions :: "string \<Rightarrow> start_options" where
  "exampleOptions d =
     \<lparr>o_projectId = None, o_projectCode = Some ''26Q1W22'', o_projectName = None,
      o_description = Some d, o_conversationId = None, o_tags = None\<rparr>"

text \<open>An idle tier, and the clock readings of two calls made one second apart.\<close>

definition idleStore :: store where
  "idleStore = \<lparr>sessionsFile = None, activeSession = None, tokenHistory = []\<rparr>"

definition envA :: env where
  "envA = \<lparr>now = 1000, rnd = ''aaa'', host = Browser\<rparr>"

definition envB :: env where
  "envB = \<lparr>now = 2000, rnd = ''bbb'', host = Browser\<rparr>"

text \<open>
  A file tier whose active session \<open>s\<close> already counts 5000 tokens and references one
  imported entry, and a tracking table with that row and two later rows of 2400
  characters each (600 estimated tokens each). The script runs under Node, three hours
  after the session started, and again an hour later.
\<close>

definition syncEnv :: env where
  "syncEnv = \<lparr>now = 10800000, rnd = ''r'', host = Node False\<rparr>"

definition syncEnvLater :: env where
  "syncEnvLater = \<lparr>now = 14400000, rnd = ''r'', host = Node False\<rparr>"

definition syncStore :: store where
  "syncStore =
     \<lparr>sessionsFile =
        Some [(exampleSession ''s'' 0)\<lparr>totalTokens := Some 5000,
                                       tokenEntries := Some [''entry_5_abcdef12'']\<rparr>],
      activeSession = Some ''s'', tokenHistory = []\<rparr>"

definition syncDb :: "row list" where
  "syncDb =
     [exampleRow ''abcdef1234'' 5 ''old'',
      exampleRow ''0123456789'' 6 (replicate 2400 CHR ''x''),
      exampleRow ''fedcba9876'' 7 (replicate 2400 CHR ''y'')]"

text \<open>The same table with one more row, which has no hash.\<close>

definition nullHashDb :: "row list" where
  "nullHashDb = syncDb @ [(exampleRow [] 8 ''zzzz'')\<lparr>hash := None\<rparr>]"

text \<open>A tier that holds an open session the pointer does not name.\<close>

definition strayStore :: store where
  "strayStore =
     \<lparr>sessionsFile = Some [exampleSession ''z'' 0], activeSession = None, tokenHistory = []\<rparr>"


section \<open>Properties of project identifiers\<close>

lemma char_of_48: "char_of (48::nat) = CHR ''0''"
  by code_simp

lemma digit_val_2_0: "digit_val CHR ''2'' = 2" "digit_val CHR ''0'' = 0"
  by (simp_all add: digit_val_def)

lemma digit_val_char: "d < 10 \<Longrightarrow> digit_val (digit_char d) = d"
  by (simp add: digit_val_def digit_char_def)

lemma is_digit_char: "d < 10 \<Longrightarrow> is_digit (digit_char d)"
  by (simp add: is_digit_def digit_char_def)

lemma show_nat_1: "n < 10 \<Longrightarrow> show_nat n = [digit_char n]"
  by (simp add: show_nat.simps)

lemma show_nat_step: "10 \<le> n \<Longrightarrow> show_nat n = show_nat (n div 10) @ [digit_char (n mod 10)]"
  by (subst show_nat.simps) simp

lemma show_nat_2:
  "10 \<le> n \<Longrightarrow> n < 100 \<Longrightarrow> show_nat n = [digit_char (n div 10), digit_char (n mod 10)]"
  by (subst show_nat.simps) (simp add: show_nat_1)

lemma show_nat_last2:
  assumes "100 \<le> n"
  shows "slice_last2 (show_nat n) = [digit_char (n div 10 mod 10), digit_char (n mod 10)]"
proof -
  have a: "show_nat n = show_nat (n div 10) @ [digit_char (n mod 10)]"
    using assms by (simp add: show_nat_step)
  have "10 \<le> n div 10" using assms by simp
  then have b: "show_nat (n div 10) = show_nat (n div 10 div 10) @ [digit_char (n div 10 mod 10)]"
    by (rule show_nat_step)
  show ?thesis
    by (subst a, subst b) (simp add: slice_last2_def)
qed

lemma platform_roundtrip:
  assumes "t \<in> {''WEB'', ''DATABASE'', ''API'', ''UNITY'', ''ZHONG''}"
  shows "lookupPlatformType (getPlatformCode (Some t)) = t \<and> is_upper (getPlatformCode (Some t))"
  using assms
  by (auto simp: lookupPlatformType_def getPlatformCode_def PLATFORM_CODES_def
      codeToPrimaryName_def toUpperCase_def is_upper_def)

lemma padStart2_number:
  assumes "0 \<le> n" "n \<le> 99"
  shows "padStart2 (show_int n) = [digit_char (nat n div 10), digit_char (nat n mod 10)]"
proof (cases "n < 10")
  case True
  then show ?thesis
    using assms by (simp add: show_int_def show_nat_1 padStart2_def digit_char_def char_of_48)
next
  case False
  then show ?thesis
    using assms by (simp add: show_int_def show_nat_2 padStart2_def)
qed

lemma generate_shape:
  assumes "2000 \<le> y" "y \<le> 2099" "m < 12" "0 \<le> n" "n \<le> 99"
  shows "generateProjectId \<lparr>getFullYear = y, getMonth = m\<rparr> ty n =
     [digit_char (nat y div 10 mod 10), digit_char (nat y mod 10), CHR ''Q'',
      digit_char (m div 3 + 1), getPlatformCode ty,
      digit_char (nat n div 10), digit_char (nat n mod 10)]"
proof -
  have y: "slice_last2 (show_int y) = [digit_char (nat y div 10 mod 10), digit_char (nat y mod 10)]"
    using assms by (simp add: show_int_def show_nat_last2)
  have q: "show_nat (Suc (m div 3)) = [digit_char (Suc (m div 3))]"
    using assms by (simp add: show_nat_1)
  show ?thesis
    by (simp add: generateProjectId_def y q padStart2_number[OF assms(4,5)])
qed

lemma year_digits:
  assumes "2000 \<le> k" "k \<le> 2099"
  shows "parseInt (''20'' @ [digit_char (k div 10 mod 10), digit_char (k mod 10)]) = k"
proof -
  define j where "j = k - 2000"
  have k: "k = 200 * 10 + j" and j: "j < 100" using assms by (simp_all add: j_def)
  have a: "k div 10 = 200 + j div 10" unfolding k by (simp only: div_mult_self3)
  have b: "k mod 10 = j mod 10" unfolding k by (simp only: mod_mult_self3)
  have "(20 * 10 + j div 10) mod 10 = (j div 10) mod 10" by (simp only: mod_mult_self3)
  then have c: "(200 + j div 10) mod 10 = j div 10" using j by simp
  have "2000 + 10 * (k div 10 mod 10) + k mod 10 = k"
    unfolding a b c using k by simp
  then show ?thesis
    using j by (simp add: parseInt_def digit_val_char digit_val_2_0 a b c)
qed

lemma unknown_letter:
  assumes "p \<notin> {CHR ''W'', CHR ''D'', CHR ''A'', CHR ''U'', CHR ''Z''}"
  shows "lookupPlatformType p = ''UNKNOWN''"
  using assms by (auto simp: lookupPlatformType_def codeToPrimaryName_def PLATFORM_CODES_def)

text \<open>
  Claim C4. For a date in a year from 2000 to 2099 (any month, so any quarter 1 to 4),
  a platform among WEB, DATABASE, API, UNITY and ZHONG, and a project number from 0 to 99,
  \<open>parseProjectId (generateProjectId ...)\<close> succeeds and gives back the year, the quarter,
  the platform type and the project number. A platform that is absent or not in
  \<open>PLATFORM_CODES\<close> is written as the letter X, and parsing an identifier whose letter is
  none of W, D, A, U, Z gives the platform type UNKNOWN.
\<close>

theorem project_id_roundtrip:
  "(2000 \<le> y \<and> y \<le> 2099 \<and> m < 12 \<and> t \<in> {''WEB'', ''DATABASE'', ''API'', ''UNITY'', ''ZHONG''}
      \<and> 0 \<le> n \<and> n \<le> 99 \<longrightarrow>
      parseProjectId (generateProjectId \<lparr>getFullYear = y, getMonth = m\<rparr> (Some t) n) =
        Some \<lparr>year = nat y, quarter = m div 3 + 1, platformCode = getPlatformCode (Some t),
              platformType = t, projectNumber = nat n, fullYear = nat y,
              quarterLabel = ''Q'' @ show_nat (m div 3 + 1)\<rparr>)
   \<and> ((ty = None \<or> (\<exists>u. ty = Some u \<and> map_of PLATFORM_CODES (toUpperCase u) = None)) \<longrightarrow>
        generateProjectId d ty k =
          slice_last2 (show_int (getFullYear d)) @ ''Q'' @ show_nat (getMonth d div 3 + 1)
            @ ''X'' @ padStart2 (show_int k))
   \<and> (is_digit y1 \<and> is_digit y2 \<and> is_digit qd \<and> is_digit n1 \<and> is_digit n2 \<and> is_upper p
        \<and> p \<notin> {CHR ''W'', CHR ''D'', CHR ''A'', CHR ''U'', CHR ''Z''} \<longrightarrow>
        map_option platformType (parseProjectId [y1, y2, CHR ''Q'', qd, p, n1, n2])
          = Some ''UNKNOWN'')"
proof (intro conjI impI)
  assume h: "2000 \<le> y \<and> y \<le> 2099 \<and> m < 12
      \<and> t \<in> {''WEB'', ''DATABASE'', ''API'', ''UNITY'', ''ZHONG''} \<and> 0 \<le> n \<and> n \<le> 99"
  then have h': "2000 \<le> y" "y \<le> 2099" "m < 12" "0 \<le> n" "n \<le> 99"
    and ht: "t \<in> {''WEB'', ''DATABASE'', ''API'', ''UNITY'', ''ZHONG''}"
    by simp_all
  have g: "generateProjectId \<lparr>getFullYear = y, getMonth = m\<rparr> (Some t) n =
     [digit_char (nat y div 10 mod 10), digit_char (nat y mod 10), CHR ''Q'',
      digit_char (m div 3 + 1), getPlatformCode (Some t),
      digit_char (nat n div 10), digit_char (nat n mod 10)]"
    using h' by (rule generate_shape)
  have d: "is_digit (digit_char (nat y div 10 mod 10))" "is_digit (digit_char (nat y mod 10))"
     "is_digit (digit_char (m div 3 + 1))" "is_digit (digit_char (nat n div 10))"
     "is_digit (digit_char (nat n mod 10))"
    using h' by (simp_all add: is_digit_char)
  have pl: "lookupPlatformType (getPlatformCode (Some t)) = t" "is_upper (getPlatformCode (Some t))"
    using platform_roundtrip[OF ht] by simp_all
  have yv: "parseInt (''20'' @ [digit_char (nat y div 10 mod 10), digit_char (nat y mod 10)]) = nat y"
    using h' by (intro year_digits) auto
  have nv: "parseInt [digit_char (nat n div 10), digit_char (nat n mod 10)] = nat n"
    using h' by (simp add: parseInt_def digit_val_char)
  have qv: "parseInt [digit_char (m div 3 + 1)] = m div 3 + 1"
    using h' by (simp add: parseInt_def digit_val_char)
  show "parseProjectId (generateProjectId \<lparr>getFullYear = y, getMonth = m\<rparr> (Some t) n) =
        Some \<lparr>year = nat y, quarter = m div 3 + 1, platformCode = getPlatformCode (Some t),
              platformType = t, projectNumber = nat n, fullYear = nat y,
              quarterLabel = ''Q'' @ show_nat (m div 3 + 1)\<rparr>"
    unfolding g using d pl yv nv qv by (simp add: parseProjectId_def Let_def)
next
  assume "ty = None \<or> (\<exists>u. ty = Some u \<and> map_of PLATFORM_CODES (toUpperCase u) = None)"
  then have "getPlatformCode ty = CHR ''X''"
    by (auto simp: getPlatformCode_def)
  then show "generateProjectId d ty k =
          slice_last2 (show_int (getFullYear d)) @ ''Q'' @ show_nat (getMonth d div 3 + 1)
            @ ''X'' @ padStart2 (show_int k)"
    by (simp add: generateProjectId_def)
next
  assume "is_digit y1 \<and> is_digit y2 \<and> is_digit qd \<and> is_digit n1 \<and> is_digit n2 \<and> is_upper p
        \<and> p \<notin> {CHR ''W'', CHR ''D'', CHR ''A'', CHR ''U'', CHR ''Z''}"
  then show "map_option platformType (parseProjectId [y1, y2, CHR ''Q'', qd, p, n1, n2])
      = Some ''UNKNOWN''"
    using unknown_letter[of p] by (simp add: parseProjectId_def Let_def)
qed

theorem project_id_roundtrip_witness:
  "generateProjectId \<lparr>getFullYear = 2026, getMonth = 0\<rparr> (Some ''WEB'') 22 = ''26Q1W22''
   \<and> parseProjectId ''26Q1W22'' =
        Some \<lparr>year = 2026, quarter = 1, platformCode = CHR ''W'', platformType = ''WEB'',
              projectNumber = 22, fullYear = 2026, quarterLabel = ''Q1''\<rparr>
   \<and> generateProjectId \<lparr>getFullYear = 2026, getMonth = 0\<rparr> (Some ''game'') 22 = ''26Q1X22''
   \<and> map_option platformType (parseProjectId ''26Q1X22'') = Some ''UNKNOWN''"
proof -
  have g: "generateProjectId \<lparr>getFullYear = 2026, getMonth = 0\<rparr> (Some ''WEB'') 22 = ''26Q1W22''"
    by code_simp
  have x: "generateProjectId \<lparr>getFullYear = 2026, getMonth = 0\<rparr> (Some ''game'') 22 = ''26Q1X22''"
    by code_simp
  have h1: "(2000::int) \<le> 2026 \<and> (2026::int) \<le> 2099 \<and> (0::nat) < 12
      \<and> ''WEB'' \<in> {''WEB'', ''DATABASE'', ''API'', ''UNITY'', ''ZHONG''}
      \<and> (0::int) \<le> 22 \<and> (22::int) \<le> 99"
    by simp
  have h3: "is_digit CHR ''2'' \<and> is_digit CHR ''6'' \<and> is_digit CHR ''1'' \<and> is_digit CHR ''2''
      \<and> is_digit CHR ''2'' \<and> is_upper CHR ''X''
      \<and> CHR ''X'' \<notin> {CHR ''W'', CHR ''D'', CHR ''A'', CHR ''U'', CHR ''Z''}"
    by (simp add: is_digit_def is_upper_def)
  note t = project_id_roundtrip[of 2026 0 "''WEB''" 22 "Some ''game''"
      "\<lparr>getFullYear = 2026, getMonth = 0\<rparr>" 22
      "CHR ''2''" "CHR ''6''" "CHR ''1''" "CHR ''2''" "CHR ''2''" "CHR ''X''"]
  have a: "parseProjectId (generateProjectId \<lparr>getFullYear = 2026, getMonth = 0\<rparr> (Some ''WEB'') 22) =
        Some \<lparr>year = nat 2026, quarter = 0 div 3 + 1, platformCode = getPlatformCode (Some ''WEB''),
              platformType = ''WEB'', projectNumber = nat 22, fullYear = nat 2026,
              quarterLabel = ''Q'' @ show_nat (0 div 3 + 1)\<rparr>"
    using t h1 by blast
  have c: "map_option platformType (parseProjectId ''26Q1X22'') = Some ''UNKNOWN''"
    using t h3 by blast
  have pc: "getPlatformCode (Some ''WEB'') = CHR ''W''" by code_simp
  have sq: "show_nat (0 div 3 + 1) = ''1''" by code_simp
  show ?thesis
    using a c g x pc sq by simp
qed



section \<open>Properties of the entry store query\<close>

lemma getTokenHistory_filter:
  "getTokenHistory options hist = filter (matchesFilter (ignoreEmptyLabels options)) hist"
  by (cases options)
     (auto simp: getTokenHistory_def matchesFilter_def ignoreEmptyLabels_def Let_def
           split: option.splits intro!: filter_cong)

lemma ignoreEmptyLabels_id:
  "opt_project options \<noteq> Some [] \<Longrightarrow> opt_operation options \<noteq> Some []
   \<Longrightarrow> ignoreEmptyLabels options = options"
  by (simp add: ignoreEmptyLabels_def)

text \<open>
  Claim C9, as amended. \<open>getTokenHistory\<close> returns exactly the stored entries that match
  the filter (time range with inclusive bounds, project label, operation label), in the
  order in which they are stored; a label that is the empty string counts as no label.
  It does not sort: whenever the stored log is in ascending order of timestamp so is the
  result, and entries with equal timestamps keep their insertion order.
\<close>

theorem token_history_insertion_order:
  "getTokenHistory options hist = filter (matchesFilter (ignoreEmptyLabels options)) hist
   \<and> (opt_project options \<noteq> Some [] \<and> opt_operation options \<noteq> Some []
        \<longrightarrow> getTokenHistory options hist = filter (matchesFilter options) hist)
   \<and> (sorted (map timestamp hist) \<longrightarrow> sorted (map timestamp (getTokenHistory options hist)))"
proof (intro conjI impI)
  show f: "getTokenHistory options hist = filter (matchesFilter (ignoreEmptyLabels options)) hist"
    by (rule getTokenHistory_filter)
  show "getTokenHistory options hist = filter (matchesFilter options) hist"
    if "opt_project options \<noteq> Some [] \<and> opt_operation options \<noteq> Some []"
    using that f by (simp add: ignoreEmptyLabels_id)
  assume "sorted (map timestamp hist)"
  then show "sorted (map timestamp (getTokenHistory options hist))"
    unfolding f by (simp add: sorted_filter)
qed

theorem token_history_insertion_order_witness:
  "getTokenHistory (no_options\<lparr>opt_startDate := Some 1000, opt_endDate := Some 2000,
                              opt_project := Some ''zhong'', opt_operation := Some []\<rparr>)
     [exampleEntry ''a'' 1000 10, exampleEntry ''b'' 1000 20,
      (exampleEntry ''x'' 1500 1)\<lparr>project := ''yang''\<rparr>,
      (exampleEntry ''c'' 2000 5)\<lparr>operation := ''chat''\<rparr>, exampleEntry ''d'' 3000 7]
   = [exampleEntry ''a'' 1000 10, exampleEntry ''b'' 1000 20,
      (exampleEntry ''c'' 2000 5)\<lparr>operation := ''chat''\<rparr>]
   \<and> getTokenHistory (no_options\<lparr>opt_startDate := Some 1000, opt_project := Some ''zhong''\<rparr>)
       [exampleEntry ''a'' 1000 10, exampleEntry ''b'' 1000 20,
        (exampleEntry ''x'' 1500 1)\<lparr>project := ''yang''\<rparr>,
        (exampleEntry ''c'' 2000 5)\<lparr>operation := ''chat''\<rparr>, exampleEntry ''d'' 3000 7]
     = filter (matchesFilter (no_options\<lparr>opt_startDate := Some 1000, opt_project := Some ''zhong''\<rparr>))
         [exampleEntry ''a'' 1000 10, exampleEntry ''b'' 1000 20,
          (exampleEntry ''x'' 1500 1)\<lparr>project := ''yang''\<rparr>,
          (exampleEntry ''c'' 2000 5)\<lparr>operation := ''chat''\<rparr>, exampleEntry ''d'' 3000 7]
   \<and> sorted (map timestamp
        (getTokenHistory (no_options\<lparr>opt_startDate := Some 1000, opt_endDate := Some 2000,
                                     opt_project := Some ''zhong'', opt_operation := Some []\<rparr>)
          [exampleEntry ''a'' 1000 10, exampleEntry ''b'' 1000 20,
           (exampleEntry ''x'' 1500 1)\<lparr>project := ''yang''\<rparr>,
           (exampleEntry ''c'' 2000 5)\<lparr>operation := ''chat''\<rparr>, exampleEntry ''d'' 3000 7]))"
proof -
  let ?log = "[exampleEntry ''a'' 1000 10, exampleEntry ''b'' 1000 20,
      (exampleEntry ''x'' 1500 1)\<lparr>project := ''yang''\<rparr>,
      (exampleEntry ''c'' 2000 5)\<lparr>operation := ''chat''\<rparr>, exampleEntry ''d'' 3000 7]"
  let ?o1 = "no_options\<lparr>opt_startDate := Some 1000, opt_endDate := Some 2000,
                         opt_project := Some ''zhong'', opt_operation := Some []\<rparr>"
  let ?o2 = "no_options\<lparr>opt_startDate := Some 1000, opt_project := Some ''zhong''\<rparr>"
  have s: "sorted (map timestamp ?log)"
    by (simp add: exampleEntry_def)
  have l: "opt_project ?o2 \<noteq> Some [] \<and> opt_operation ?o2 \<noteq> Some []"
    by (simp add: no_options_def)
  have a: "filter (matchesFilter (ignoreEmptyLabels ?o1)) ?log
     = [exampleEntry ''a'' 1000 10, exampleEntry ''b'' 1000 20,
        (exampleEntry ''c'' 2000 5)\<lparr>operation := ''chat''\<rparr>]"
    by (simp add: matchesFilter_def ignoreEmptyLabels_def no_options_def exampleEntry_def)
  have c1: "getTokenHistory ?o1 ?log
     = [exampleEntry ''a'' 1000 10, exampleEntry ''b'' 1000 20,
        (exampleEntry ''c'' 2000 5)\<lparr>operation := ''chat''\<rparr>]"
    using token_history_insertion_order[of ?o1 ?log, THEN conjunct1] a by simp
  have c2: "getTokenHistory ?o2 ?log = filter (matchesFilter ?o2) ?log"
    using token_history_insertion_order[of ?o2 ?log, THEN conjunct2, THEN conjunct1] l by blast
  have c3: "sorted (map timestamp (getTokenHistory ?o1 ?log))"
    using token_history_insertion_order[of ?o1 ?log, THEN conjunct2, THEN conjunct2] s by blast
  show ?thesis
    by (intro conjI c1 c2 c3)
qed

text \<open>
  The log need not be in timestamp order: an entry logged at instant 2000 followed by an
  imported entry that carries the older instant 1000 (\<open>syncFromCursorDatabase\<close> appends
  entries stamped with the row's \<open>createdAt\<close>) comes back in that order.
\<close>

theorem token_history_not_sorted:
  "getTokenHistory no_options [exampleEntry ''a'' 2000 10, exampleEntry ''b'' 1000 10]
     = [exampleEntry ''a'' 2000 10, exampleEntry ''b'' 1000 10]
   \<and> \<not> sorted (map timestamp
       (getTokenHistory no_options [exampleEntry ''a'' 2000 10, exampleEntry ''b'' 1000 10]))"
  by (simp add: getTokenHistory_def no_options_def exampleEntry_def)

section \<open>Properties of the file-to-cache merge\<close>

lemma merge_sessions:
  assumes "fileSessions \<noteq> []"
  shows "storedSessions (syncSessionsFromFileSystem
            (Some \<lparr>data_sessions = Some fileSessions, data_activeSessionId = ptr\<rparr>) cache)
     = map (\<lambda>existing. case find (\<lambda>s. sid s = sid existing) fileSessions of
                          Some updated \<Rightarrow> updated | None \<Rightarrow> existing) (storedSessions cache)
       @ filter (\<lambda>s. sid s \<notin> sid ` set (storedSessions cache)) fileSessions"
  using assms by (simp add: syncSessionsFromFileSystem_def Let_def storedSessions_def)

text \<open>
  Claim C8, as amended. When the file tier returns at least one session, the merge
  overwrites every cached session whose id the file tier knows by the file tier's (first)
  version of it, whether or not anything differs; it keeps every session that only the
  cache has, in place and untouched; it appends the file-tier sessions whose id the cache
  lacks; and it sets the cache's active-session pointer to the file tier's pointer when
  that pointer is non-empty. When the file tier has no active session, the cache's
  pointer is left as it was.
\<close>

theorem file_merge:
  fixes ptr :: "string option" and cache :: store
  assumes "fileSessions \<noteq> []"
  defines "cache' \<equiv> syncSessionsFromFileSystem
            (Some \<lparr>data_sessions = Some fileSessions, data_activeSessionId = ptr\<rparr>) cache"
  shows "(\<forall>i < length (storedSessions cache). \<forall>u.
            find (\<lambda>s. sid s = sid (storedSessions cache ! i)) fileSessions = Some u
              \<longrightarrow> storedSessions cache' ! i = u)
       \<and> (\<forall>i < length (storedSessions cache).
            sid (storedSessions cache ! i) \<notin> sid ` set fileSessions
              \<longrightarrow> storedSessions cache' ! i = storedSessions cache ! i)
       \<and> drop (length (storedSessions cache)) (storedSessions cache')
            = filter (\<lambda>s. sid s \<notin> sid ` set (storedSessions cache)) fileSessions
       \<and> (truthy ptr \<longrightarrow> activeSession cache' = ptr)
       \<and> (\<not> truthy ptr \<longrightarrow> activeSession cache' = activeSession cache)
       \<and> tokenHistory cache' = tokenHistory cache"
proof -
  note m = merge_sessions[OF assms(1), of ptr cache, folded cache'_def]
  have a: "\<forall>i < length (storedSessions cache). \<forall>u.
            find (\<lambda>s. sid s = sid (storedSessions cache ! i)) fileSessions = Some u
              \<longrightarrow> storedSessions cache' ! i = u"
    unfolding m by (simp add: nth_append)
  have b: "\<forall>i < length (storedSessions cache).
            sid (storedSessions cache ! i) \<notin> sid ` set fileSessions
              \<longrightarrow> storedSessions cache' ! i = storedSessions cache ! i"
  proof (intro allI impI)
    fix i assume i: "i < length (storedSessions cache)"
      and n: "sid (storedSessions cache ! i) \<notin> sid ` set fileSessions"
    from n have "find (\<lambda>s. sid s = sid (storedSessions cache ! i)) fileSessions = None"
      by (force simp: find_None_iff image_iff)
    then show "storedSessions cache' ! i = storedSessions cache ! i"
      unfolding m using i by (simp add: nth_append)
  qed
  have c: "drop (length (storedSessions cache)) (storedSessions cache')
            = filter (\<lambda>s. sid s \<notin> sid ` set (storedSessions cache)) fileSessions"
    unfolding m by simp
  have d: "truthy ptr \<longrightarrow> activeSession cache' = ptr"
    "\<not> truthy ptr \<longrightarrow> activeSession cache' = activeSession cache"
    "tokenHistory cache' = tokenHistory cache"
    using assms(1) by (simp_all add: cache'_def syncSessionsFromFileSystem_def Let_def)
  show ?thesis using a b c d by blast
qed

text \<open>
  The file tier has ended session \<open>a\<close> and holds no pointer; the cache still points at \<open>a\<close>
  after the merge, so the two pointers differ.
\<close>

theorem file_merge_pointer_counterexample:
  "activeSession (syncSessionsFromFileSystem
      (Some \<lparr>data_sessions = Some [(exampleSession ''a'' 100)\<lparr>endTime := Some 500\<rparr>],
             data_activeSessionId = None\<rparr>)
      \<lparr>sessionsFile = Some [exampleSession ''a'' 100], activeSession = Some ''a'',
       tokenHistory = []\<rparr>) = Some ''a''
   \<and> data_activeSessionId \<lparr>data_sessions = Some [(exampleSession ''a'' 100)\<lparr>endTime := Some 500\<rparr>],
             data_activeSessionId = None\<rparr> = None"
  by (simp add: syncSessionsFromFileSystem_def Let_def truthy_def)


theorem file_merge_witness:
  "storedSessions (syncSessionsFromFileSystem
      (Some \<lparr>data_sessions = Some [(exampleSession ''a'' 100)\<lparr>endTime := Some 500\<rparr>,
                                   exampleSession ''b'' 600],
             data_activeSessionId = Some ''b''\<rparr>)
      \<lparr>sessionsFile = Some [exampleSession ''a'' 100, exampleSession ''c'' 50],
       activeSession = Some ''a'', tokenHistory = []\<rparr>)
     = [(exampleSession ''a'' 100)\<lparr>endTime := Some 500\<rparr>, exampleSession ''c'' 50,
        exampleSession ''b'' 600]
   \<and> activeSession (syncSessionsFromFileSystem
      (Some \<lparr>data_sessions = Some [(exampleSession ''a'' 100)\<lparr>endTime := Some 500\<rparr>,
                                   exampleSession ''b'' 600],
             data_activeSessionId = Some ''b''\<rparr>)
      \<lparr>sessionsFile = Some [exampleSession ''a'' 100, exampleSession ''c'' 50],
       activeSession = Some ''a'', tokenHistory = []\<rparr>) = Some ''b''"
proof -
  have ne: "[(exampleSession ''a'' 100)\<lparr>endTime := Some 500\<rparr>, exampleSession ''b'' 600] \<noteq> []"
    by simp
  have tr: "truthy (Some ''b'')"
    by (simp add: truthy_def)
  note t = file_merge[OF ne, where ptr = "Some ''b''" and cache = "\<lparr>sessionsFile =
      Some [exampleSession ''a'' 100, exampleSession ''c'' 50],
       activeSession = Some ''a'', tokenHistory = []\<rparr>"]
  have p: "activeSession (syncSessionsFromFileSystem
      (Some \<lparr>data_sessions = Some [(exampleSession ''a'' 100)\<lparr>endTime := Some 500\<rparr>,
                                   exampleSession ''b'' 600],
             data_activeSessionId = Some ''b''\<rparr>)
      \<lparr>sessionsFile = Some [exampleSession ''a'' 100, exampleSession ''c'' 50],
       activeSession = Some ''a'', tokenHistory = []\<rparr>) = Some ''b''"
    using t tr by blast
  have l: "storedSessions (syncSessionsFromFileSystem
      (Some \<lparr>data_sessions = Some [(exampleSession ''a'' 100)\<lparr>endTime := Some 500\<rparr>,
                                   exampleSession ''b'' 600],
             data_activeSessionId = Some ''b''\<rparr>)
      \<lparr>sessionsFile = Some [exampleSession ''a'' 100, exampleSession ''c'' 50],
       activeSession = Some ''a'', tokenHistory = []\<rparr>)
     = [(exampleSession ''a'' 100)\<lparr>endTime := Some 500\<rparr>, exampleSession ''c'' 50,
        exampleSession ''b'' 600]"
    by (simp add: syncSessionsFromFileSystem_def Let_def storedSessions_def exampleSession_def)
  show ?thesis using p l by simp
qed



section \<open>Properties of the timeout sweep\<close>




text \<open>The storage helpers in a browser, and without modules under Node.\<close>

lemma loadSessions_Browser: "loadSessions Browser st = storedSessions st"
  by (simp add: loadSessions_def)

lemma saveSessions_Browser: "saveSessions Browser ss st = st\<lparr>sessionsFile := Some ss\<rparr>"
  by (simp add: saveSessions_def)

lemma getActiveSessionId_Browser: "getActiveSessionId Browser st = activeSession st"
  by (simp add: getActiveSessionId_def)

lemma setActiveSessionId_Browser:
  "setActiveSessionId Browser i st =
     (if truthy i then st\<lparr>activeSession := i\<rparr> else st\<lparr>activeSession := None\<rparr>)"
  by (simp add: setActiveSessionId_def)

lemma loadHistory_Browser: "loadHistory Browser st = tokenHistory st"
  by (simp add: loadHistory_def)

lemmas Browser_simps =
  loadSessions_Browser saveSessions_Browser getActiveSessionId_Browser
  setActiveSessionId_Browser loadHistory_Browser

lemma reachesStorage_Browser: "reachesStorage Browser"
  by (simp add: reachesStorage_def)

lemma reachesStorage_cases: "reachesStorage rt \<or> rt = Node False"
  by (cases rt) (simp_all add: reachesStorage_def getNodeModules_def)

lemma reach_simps:
  assumes "reachesStorage rt"
  shows "loadSessions rt st = storedSessions st"
    and "saveSessions rt ss st = st\<lparr>sessionsFile := Some ss\<rparr>"
    and "getActiveSessionId rt st = activeSession st"
    and "setActiveSessionId rt i st =
           (if truthy i then st\<lparr>activeSession := i\<rparr> else st\<lparr>activeSession := None\<rparr>)"
  using assms
  by (cases rt; simp add: reachesStorage_def getNodeModules_def loadSessions_def
        saveSessions_def getActiveSessionId_def setActiveSessionId_def)+

lemma storedSessions_update:
  "storedSessions (st\<lparr>sessionsFile := Some ss\<rparr>) = ss"
  "storedSessions (st\<lparr>activeSession := p\<rparr>) = storedSessions st"
  by (simp_all add: storedSessions_def)

lemma helpers_without_modules:
  "loadSessions (Node False) st = []"
  "saveSessions (Node False) ss st = st"
  "getActiveSessionId (Node False) st = None"
  "setActiveSessionId (Node False) i st = st"
  "loadHistory (Node False) st = []"
  by (simp_all add: loadSessions_def saveSessions_def getActiveSessionId_def
      setActiveSessionId_def loadHistory_def getNodeModules_def)

text \<open>
  Run by \<open>node\<close>, the sweep loads no session: it ends nothing and leaves both files as
  they are, whatever they hold.
\<close>

lemma sweep_without_modules:
  "host e = Node False \<Longrightarrow> checkAndEndTimedOutSessions T e st = ([], st)"
  by (simp add: checkAndEndTimedOutSessions_def helpers_without_modules)

lemma sweepEach_result:
  assumes r: "reachesStorage rt"
  shows "sweepEach rt T t h ss st =
     (map (\<lambda>s. if timedOut T t h s then autoEnd t h (t - getLastActivityTime h s) s else s) ss,
      map sid (filter (timedOut T t h) ss),
      st\<lparr>activeSession :=
           (if \<exists>s \<in> set ss. timedOut T t h s \<and> activeSession st = Some (sid s)
            then None else activeSession st)\<rparr>)"
proof (induction ss arbitrary: st)
  case Nil
  then show ?case by simp
next
  case (Cons s ss)
  show ?case
  proof (cases "timedOut T t h s")
    case True
    show ?thesis
    proof (cases "activeSession st = Some (sid s)")
      case p: True
      show ?thesis
        using True p Cons[of "st\<lparr>activeSession := None\<rparr>"]
        by (auto simp: timedOut_def Let_def reach_simps[OF r] truthy_def)
    next
      case p: False
      show ?thesis
        using True p Cons[of st]
        by (auto simp: timedOut_def Let_def reach_simps[OF r] truthy_def)
    qed
  next
    case False
    then show ?thesis
      using Cons[of st] by (auto simp: timedOut_def Let_def)
  qed
qed

lemma endTime_autoEnd: "endTime (autoEnd t h i s) = Some t"
  by (simp add: autoEnd_def Let_def)

lemma sid_autoEnd: "sid (autoEnd t h i s) = sid s"
  by (simp add: autoEnd_def Let_def finalizeTokens_def)

lemma not_timedOut_autoEnd: "\<not> timedOut T t' h' (autoEnd t h i s)"
  by (simp add: timedOut_def endTime_autoEnd)

lemma sweepSession_quiet: "\<not> timedOut T t h (sweepSession T t h s)"
  by (simp add: sweepSession_def not_timedOut_autoEnd)

lemma sweep_sessions_reach:
  assumes r: "reachesStorage (host e)"
  shows "storedSessions (snd (checkAndEndTimedOutSessions T e st)) =
     map (sweepSession T (now e) (loadHistory (host e) st)) (storedSessions st)"
proof (cases "filter (timedOut T (now e) (loadHistory (host e) st)) (storedSessions st) = []")
  case True
  then have "\<forall>s \<in> set (storedSessions st). \<not> timedOut T (now e) (loadHistory (host e) st) s"
    by (simp add: filter_empty_conv)
  then have "map (sweepSession T (now e) (loadHistory (host e) st)) (storedSessions st)
      = storedSessions st"
    by (simp add: sweepSession_def map_idI)
  then show ?thesis
    using True
    by (simp add: checkAndEndTimedOutSessions_def reach_simps[OF r] sweepEach_result[OF r]
        storedSessions_update)
next
  case False
  then show ?thesis
    by (simp add: checkAndEndTimedOutSessions_def reach_simps[OF r] sweepEach_result[OF r]
        storedSessions_update sweepSession_def[abs_def])
qed

lemma sweep_sessions:
  assumes b: "host e = Browser"
  shows "storedSessions (snd (checkAndEndTimedOutSessions T e st)) =
     map (sweepSession T (now e) (tokenHistory st)) (storedSessions st)"
  using sweep_sessions_reach[of e T st] b
  by (simp add: reachesStorage_Browser loadHistory_Browser)


lemma host_Browser_reaches: "host e = Browser \<Longrightarrow> reachesStorage (host e)"
  by (simp add: reachesStorage_def)


lemma sweep_pointer:
  assumes b: "host e = Browser"
  shows "activeSession (snd (checkAndEndTimedOutSessions T e st)) =
     (if \<exists>s \<in> set (storedSessions st). timedOut T (now e) (tokenHistory st) s
           \<and> activeSession st = Some (sid s)
      then None else activeSession st)"
  by (simp add: checkAndEndTimedOutSessions_def b Browser_simps sweepEach_result[OF reachesStorage_Browser])

lemma sweep_history:
  assumes b: "host e = Browser"
  shows "tokenHistory (snd (checkAndEndTimedOutSessions T e st)) = tokenHistory st"
  by (simp add: checkAndEndTimedOutSessions_def b Browser_simps sweepEach_result[OF reachesStorage_Browser])

lemma sweep_nothing:
  assumes b: "host e = Browser"
    and "\<forall>s \<in> set (storedSessions st). \<not> timedOut T (now e) (tokenHistory st) s"
  shows "checkAndEndTimedOutSessions T e st = ([], st)"
proof -
  have "filter (timedOut T (now e) (tokenHistory st)) (storedSessions st) = []"
    using assms by (simp add: filter_empty_conv)
  moreover have "\<not> (\<exists>s \<in> set (storedSessions st). timedOut T (now e) (tokenHistory st) s
           \<and> activeSession st = Some (sid s))"
    using assms by blast
  ultimately show ?thesis
    by (auto simp: checkAndEndTimedOutSessions_def b Browser_simps sweepEach_result[OF reachesStorage_Browser])
qed

lemma sweep_idempotent:
  assumes b: "host e = Browser"
  shows "checkAndEndTimedOutSessions T e (snd (checkAndEndTimedOutSessions T e st))
     = ([], snd (checkAndEndTimedOutSessions T e st))"
  by (rule sweep_nothing[OF b])
     (simp add: sweep_sessions[OF b] sweep_history[OF b] sweepSession_quiet)





text \<open>
  The same tier swept by a script run by \<open>node\<close>: session \<open>a\<close> stays open and the pointer
  keeps naming it.
\<close>

lemma sweep_under_node:
  "checkAndEndTimedOutSessions SESSION_TIMEOUT_MS (exampleEnv\<lparr>host := Node False\<rparr>) exampleStore
     = ([], exampleStore)"
  by (simp add: sweep_without_modules)

section \<open>Ended sessions are immutable\<close>

lemma findIndex_find_Some:
  "find P xs = Some y \<Longrightarrow> \<exists>i. findIndex P xs = Some i \<and> i < length xs \<and> xs ! i = y"
proof (induction xs)
  case Nil
  then show ?case by simp
next
  case (Cons x xs)
  then show ?case by (cases "P x") auto
qed


lemma findIndex_Some:
  "findIndex P xs = Some i \<Longrightarrow> i < length xs \<and> P (xs ! i) \<and> find P xs = Some (xs ! i)"
proof (induction xs arbitrary: i)
  case Nil
  then show ?case by simp
next
  case (Cons x xs)
  then show ?case by (cases "P x") (auto split: option.splits)
qed

lemma find_map_same:
  assumes "\<And>x. x \<in> set xs \<Longrightarrow> P (f x) = P x"
  shows "find P (map f xs) = map_option f (find P xs)"
  using assms by (induction xs) auto

lemma sid_sweepSession: "sid (sweepSession T t h s) = sid s"
  by (simp add: sweepSession_def sid_autoEnd)

lemma sweepSession_ended: "endTime s \<noteq> None \<Longrightarrow> sweepSession T t h s = s"
  by (auto simp: sweepSession_def timedOut_def)

lemma sweepSession_endTime: "endTime s \<noteq> None \<Longrightarrow> endTime (sweepSession T t h s) \<noteq> None"
  by (simp add: sweepSession_ended)


lemma find_sid_sweep:
  assumes r: "reachesStorage (host e)"
  shows "find (\<lambda>x. sid x = k) (storedSessions (snd (checkAndEndTimedOutSessions T e st)))
     = map_option (sweepSession T (now e) (loadHistory (host e) st))
         (find (\<lambda>x. sid x = k) (storedSessions st))"
  unfolding sweep_sessions_reach[OF r] by (rule find_map_same) (simp add: sid_sweepSession)


text \<open>
  Claim C5. When the session that the id resolves to has ended, \<open>addTokenEntryToSession\<close>
  and \<open>addActivityToSession\<close> return \<open>false\<close> and leave behind the store that their
  opening sweep alone produces; in that store the session found under the id is the same
  record, and every session that had ended is unchanged at its position. This holds in
  a browser and under Node alike: without modules the two functions load no session and
  return \<open>false\<close> before any write.
\<close>

theorem ended_session_immutable:
  assumes "find (\<lambda>x. sid x = sessionId) (storedSessions st) = Some s"
    and "endTime s \<noteq> None"
  shows "addTokenEntryToSession e sessionId newEntryId st
           = (False, snd (checkAndEndTimedOutSessions SESSION_TIMEOUT_MS e st))
       \<and> addActivityToSession e sessionId act st
           = (False, snd (checkAndEndTimedOutSessions SESSION_TIMEOUT_MS e st))
       \<and> find (\<lambda>x. sid x = sessionId)
            (storedSessions (snd (checkAndEndTimedOutSessions SESSION_TIMEOUT_MS e st))) = Some s
       \<and> (\<forall>i < length (storedSessions st). endTime (storedSessions st ! i) \<noteq> None \<longrightarrow>
            storedSessions (snd (checkAndEndTimedOutSessions SESSION_TIMEOUT_MS e st)) ! i
              = storedSessions st ! i)"
proof -
  let ?st1 = "snd (checkAndEndTimedOutSessions SESSION_TIMEOUT_MS e st)"
  consider (reach) "reachesStorage (host e)" | (node) "host e = Node False"
    using reachesStorage_cases[of "host e"] by blast
  then show ?thesis
  proof cases
    case reach
    have f: "find (\<lambda>x. sid x = sessionId) (storedSessions ?st1) = Some s"
      using assms by (simp add: find_sid_sweep[OF reach] sweepSession_ended)
    from findIndex_find_Some[OF f]
    obtain i where i: "findIndex (\<lambda>x. sid x = sessionId) (storedSessions ?st1) = Some i"
      "storedSessions ?st1 ! i = s"
      by auto
    have a: "addTokenEntryToSession e sessionId newEntryId st = (False, ?st1)"
      using i assms(2) by (simp add: addTokenEntryToSession_def Let_def reach_simps[OF reach])
    have b: "addActivityToSession e sessionId act st = (False, ?st1)"
      using i assms(2) by (simp add: addActivityToSession_def Let_def reach_simps[OF reach])
    have c: "\<forall>i < length (storedSessions st). endTime (storedSessions st ! i) \<noteq> None \<longrightarrow>
              storedSessions ?st1 ! i = storedSessions st ! i"
      by (simp add: sweep_sessions_reach[OF reach] sweepSession_ended)
    show ?thesis
      by (intro conjI a b f c)
  next
    case node
    have s: "?st1 = st"
      by (simp add: sweep_without_modules[OF node])
    have a: "addTokenEntryToSession e sessionId newEntryId st = (False, ?st1)"
      unfolding s
      by (simp add: addTokenEntryToSession_def Let_def sweep_without_modules[OF node] node
          helpers_without_modules)
    have b: "addActivityToSession e sessionId act st = (False, ?st1)"
      unfolding s
      by (simp add: addActivityToSession_def Let_def sweep_without_modules[OF node] node
          helpers_without_modules)
    have f: "find (\<lambda>x. sid x = sessionId) (storedSessions ?st1) = Some s"
      unfolding s by (rule assms(1))
    have c: "\<forall>i < length (storedSessions st). endTime (storedSessions st ! i) \<noteq> None \<longrightarrow>
              storedSessions ?st1 ! i = storedSessions st ! i"
      unfolding s by simp
    show ?thesis
      by (intro conjI a b f c)
  qed
qed

theorem ended_session_immutable_witness:
  "addTokenEntryToSession exampleEnv ''b'' ''entry_1'' exampleStore
     = (False, snd (checkAndEndTimedOutSessions SESSION_TIMEOUT_MS exampleEnv exampleStore))
   \<and> addActivityToSession exampleEnv ''b''
        \<lparr>in_type = ''build'', in_description = None, in_metadata = None\<rparr> exampleStore
     = (False, snd (checkAndEndTimedOutSessions SESSION_TIMEOUT_MS exampleEnv exampleStore))
   \<and> storedSessions (snd (addTokenEntryToSession exampleEnv ''b'' ''entry_1'' exampleStore)) ! 1
     = (exampleSession ''b'' 0)\<lparr>endTime := Some 50\<rparr>"
proof -
  have f: "find (\<lambda>x. sid x = ''b'') (storedSessions exampleStore)
      = Some ((exampleSession ''b'' 0)\<lparr>endTime := Some 50\<rparr>)"
    by (simp add: exampleStore_def storedSessions_def exampleSession_def)
  have n: "endTime ((exampleSession ''b'' 0)\<lparr>endTime := Some 50\<rparr>) \<noteq> None"
    by simp
  note t = ended_session_immutable[OF f n, of exampleEnv]
  have ev: "storedSessions (snd (checkAndEndTimedOutSessions SESSION_TIMEOUT_MS exampleEnv exampleStore)) ! 1
      = (exampleSession ''b'' 0)\<lparr>endTime := Some 50\<rparr>"
    by code_simp
  show ?thesis
    using t[of "''entry_1''" "\<lparr>in_type = ''build'', in_description = None, in_metadata = None\<rparr>"] ev
    by simp
qed

section \<open>Properties of endSession\<close>

text \<open>
  Run by \<open>node\<close>, \<open>endSession\<close> reads no pointer: it returns \<open>null\<close> and leaves both files
  as they are, also when the pointer file names an open session.
\<close>

lemma endSession_without_modules:
  "host e = Node False \<Longrightarrow> endSession e d st = (None, st)"
  by (simp add: endSession_def helpers_without_modules truthy_def)

lemma endSession_no_pointer:
  assumes r: "reachesStorage (host e)"
    and "\<not> truthy (activeSession st)"
  shows "endSession e d st = (None, st)"
  using assms(2) by (simp add: endSession_def reach_simps[OF r] Let_def)

lemma endSession_dangling:
  assumes r: "reachesStorage (host e)"
    and "truthy (activeSession st)"
    and "findIndex (\<lambda>s. Some (sid s) = activeSession st) (storedSessions st) = None"
  shows "endSession e d st = (None, st\<lparr>activeSession := None\<rparr>)"
  using assms(2,3)
  by (simp add: endSession_def reach_simps[OF r] Let_def truthy_def)

lemma endSession_ended:
  assumes r: "reachesStorage (host e)"
    and "truthy (activeSession st)"
    and "findIndex (\<lambda>s. Some (sid s) = activeSession st) (storedSessions st) = Some i"
    and "endTime (storedSessions st ! i) \<noteq> None"
  shows "endSession e d st = (Some (Session e (storedSessions st ! i)), st\<lparr>activeSession := None\<rparr>)"
  using assms(2-4)
  by (simp add: endSession_def reach_simps[OF r] Let_def truthy_def)

lemma endSession_open:
  assumes "host e = Browser"
    and "truthy (activeSession st)"
    and "findIndex (\<lambda>s. Some (sid s) = activeSession st) (storedSessions st) = Some i"
    and "endTime (storedSessions st ! i) = None"
    and "s = storedSessions st ! i"
    and "s' = s\<lparr>description := (case d of None \<Rightarrow> description s
                                  | Some x \<Rightarrow> if x \<noteq> [] then x else description s),
               totalTokens :=
                 (if (totalTokens s = None \<or> totalTokens s = Some 0)
                     \<and> sessionTokens (tokenHistory st) s > 0
                  then Some (sessionTokens (tokenHistory st) s) else totalTokens s),
               endTime := Some (now e)\<rparr>"
  shows "endSession e d st =
           (Some (Session e s'),
            st\<lparr>sessionsFile := Some ((storedSessions st)[i := s']), activeSession := None\<rparr>)"
proof -
  have st: "sessionTokens h (x\<lparr>description := y\<rparr>) = sessionTokens h x" for h x y
    by (simp add: sessionTokens_def)
  have fin: "finalizeTokens h x = x\<lparr>totalTokens :=
                 (if (totalTokens x = None \<or> totalTokens x = Some 0) \<and> sessionTokens h x > 0
                  then Some (sessionTokens h x) else totalTokens x)\<rparr>" for h x
    by (simp add: finalizeTokens_def)
  have desc: "(if truthy d then x\<lparr>description := (case d of Some y \<Rightarrow> y | None \<Rightarrow> [])\<rparr> else x)
      = x\<lparr>description := (case d of None \<Rightarrow> description x
                                  | Some y \<Rightarrow> if y \<noteq> [] then y else description x)\<rparr>" for x :: session
    by (cases d) (simp_all add: truthy_def)
  show ?thesis
    using assms(1-4) unfolding assms(5,6)
    by (simp add: endSession_def Browser_simps Let_def fin desc st)
qed


lemma sum_map_filter_find:
  "sum_list (map tokensUsed (List.map_filter (\<lambda>i. find (\<lambda>e. entryId e = Some i) h) ids))
     = (\<Sum>i\<leftarrow>ids. tokensOfId h i)"
  by (induction ids) (auto simp: List.map_filter_simps tokensOfId_def split: option.splits)

lemma sum_single_out:
  assumes "distinct ids" "k \<in> set ids" "f k = 0"
  shows "(\<Sum>i\<leftarrow>ids. if i = k then t else f i) = t + (\<Sum>i\<leftarrow>ids. f i :: int)"
  using assms
proof (induction ids)
  case Nil
  then show ?case by simp
next
  case (Cons a ids)
  show ?case
  proof (cases "a = k")
    case True
    then have "k \<notin> set ids" using Cons.prems by simp
    then have "(\<Sum>i\<leftarrow>ids. if i = k then t else f i) = (\<Sum>i\<leftarrow>ids. f i)"
      by (intro arg_cong[where f = sum_list] map_cong) auto
    then show ?thesis using True Cons.prems by simp
  next
    case False
    then show ?thesis using Cons by simp
  qed
qed

lemma tokensOfId_Cons:
  "tokensOfId (e # h) i = (if entryId e = Some i then tokensUsed e else tokensOfId h i)"
  by (simp add: tokensOfId_def)

lemma tokensOfId_absent:
  "k \<notin> set (List.map_filter entryId h) \<Longrightarrow> tokensOfId h k = 0"
proof (induction h)
  case Nil
  then show ?case by (simp add: tokensOfId_def)
next
  case (Cons e h)
  then show ?case
    by (cases "entryId e") (auto simp: tokensOfId_Cons List.map_filter_simps)
qed

lemma sum_tokensOfId:
  assumes "distinct ids" "distinct (List.map_filter entryId h)"
  shows "(\<Sum>i\<leftarrow>ids. tokensOfId h i)
     = sum_list (map tokensUsed (filter (\<lambda>e. includesId ids (entryId e)) h))"
  using assms(2)
proof (induction h)
  case Nil
  then show ?case by (simp add: tokensOfId_def)
next
  case (Cons e h)
  show ?case
  proof (cases "entryId e")
    case None
    then have "(\<Sum>i\<leftarrow>ids. tokensOfId (e # h) i) = (\<Sum>i\<leftarrow>ids. tokensOfId h i)"
      by (simp add: tokensOfId_Cons)
    then show ?thesis
      using None Cons by (simp add: includesId_def List.map_filter_simps)
  next
    case (Some k)
    then have d: "distinct (List.map_filter entryId h)" and nk: "k \<notin> set (List.map_filter entryId h)"
      using Cons.prems by (simp_all add: List.map_filter_simps)
    have z: "tokensOfId h k = 0"
      using nk by (rule tokensOfId_absent)
    have eq: "(\<Sum>i\<leftarrow>ids. tokensOfId (e # h) i)
        = (\<Sum>i\<leftarrow>ids. if i = k then tokensUsed e else tokensOfId h i)"
      using Some by (intro arg_cong[where f = sum_list] map_cong) (auto simp: tokensOfId_Cons)
    show ?thesis
    proof (cases "k \<in> set ids")
      case True
      have "(\<Sum>i\<leftarrow>ids. if i = k then tokensUsed e else tokensOfId h i)
          = tokensUsed e + (\<Sum>i\<leftarrow>ids. tokensOfId h i)"
        using assms(1) True z by (rule sum_single_out)
      then show ?thesis
        using Some True Cons.IH[OF d] by (simp add: eq includesId_def)
    next
      case False
      then have "(\<Sum>i\<leftarrow>ids. if i = k then tokensUsed e else tokensOfId h i)
          = (\<Sum>i\<leftarrow>ids. tokensOfId h i)"
        by (intro arg_cong[where f = sum_list] map_cong) auto
      then show ?thesis
        using Some False Cons.IH[OF d] by (simp add: eq includesId_def)
    qed
  qed
qed

lemma sessionTokens_spec:
  assumes "tokenEntries s = Some ids" "distinct ids" "distinct (List.map_filter entryId hist)"
  shows "sessionTokens hist s = sum_list (map tokensUsed (referencedEntries hist s))"
  using assms
  by (simp add: sessionTokens_def referencedEntries_def sum_map_filter_find sum_tokensOfId)

text \<open>
  Claim C7, as amended, for the tier that the session manager reaches: the browser's
  \<open>localStorage\<close>. \<open>endSession\<close> returns \<open>null\<close> and changes nothing when the pointer is
  unset or empty, and returns \<open>null\<close> and clears the pointer when it names no stored
  session. When the pointer names a session that has already ended, it returns that
  session as it is and only clears the pointer. Otherwise it takes the description when
  one is given, applies the token-total rule (a total that is unset or zero is replaced
  by the recomputed sum when that sum is positive; any other total is kept), stamps the
  end time, stores the session at its position, clears the pointer and returns the closed
  session. The recomputed sum adds, for each reference of the session, the \<open>tokensUsed\<close>
  of the first logged entry with that id, nothing when there is none. When neither the
  session's references nor the log's entry ids repeat, it is the sum of \<open>tokensUsed\<close> over
  the logged entries that the session references.
\<close>

theorem end_session_cases:
  assumes b: "host e = Browser"
  shows
  "(\<not> truthy (activeSession st) \<longrightarrow> endSession e d st = (None, st))
   \<and> (truthy (activeSession st)
        \<and> findIndex (\<lambda>s. Some (sid s) = activeSession st) (storedSessions st) = None
        \<longrightarrow> endSession e d st = (None, st\<lparr>activeSession := None\<rparr>))
   \<and> (truthy (activeSession st)
        \<and> findIndex (\<lambda>s. Some (sid s) = activeSession st) (storedSessions st) = Some i
        \<and> endTime (storedSessions st ! i) \<noteq> None
        \<longrightarrow> endSession e d st
              = (Some (Session e (storedSessions st ! i)), st\<lparr>activeSession := None\<rparr>))
   \<and> (truthy (activeSession st)
        \<and> findIndex (\<lambda>s. Some (sid s) = activeSession st) (storedSessions st) = Some i
        \<and> endTime (storedSessions st ! i) = None
        \<and> s = storedSessions st ! i
        \<and> s' = s\<lparr>description := (case d of None \<Rightarrow> description s
                                     | Some x \<Rightarrow> if x \<noteq> [] then x else description s),
                  totalTokens :=
                    (if (totalTokens s = None \<or> totalTokens s = Some 0)
                        \<and> sessionTokens (tokenHistory st) s > 0
                     then Some (sessionTokens (tokenHistory st) s) else totalTokens s),
                  endTime := Some (now e)\<rparr>
        \<longrightarrow> endSession e d st
              = (Some (Session e s'),
                 st\<lparr>sessionsFile := Some ((storedSessions st)[i := s']), activeSession := None\<rparr>))
   \<and> (tokenEntries x = Some ids
        \<longrightarrow> sessionTokens hist x = (\<Sum>i\<leftarrow>ids. tokensOfId hist i))
   \<and> (tokenEntries x = Some ids \<and> distinct ids \<and> distinct (List.map_filter entryId hist)
        \<longrightarrow> sessionTokens hist x = sum_list (map tokensUsed (referencedEntries hist x)))"
proof (intro conjI impI)
  assume "\<not> truthy (activeSession st)"
  then show "endSession e d st = (None, st)"
    by (rule endSession_no_pointer[OF host_Browser_reaches[OF b]])
next
  assume "tokenEntries x = Some ids"
  then show "sessionTokens hist x = (\<Sum>i\<leftarrow>ids. tokensOfId hist i)"
    by (simp add: sessionTokens_def sum_map_filter_find)
next
  assume "truthy (activeSession st)
        \<and> findIndex (\<lambda>s. Some (sid s) = activeSession st) (storedSessions st) = None"
  then show "endSession e d st = (None, st\<lparr>activeSession := None\<rparr>)"
    by (intro endSession_dangling[OF host_Browser_reaches[OF b]]) simp_all
next
  assume "truthy (activeSession st)
        \<and> findIndex (\<lambda>s. Some (sid s) = activeSession st) (storedSessions st) = Some i
        \<and> endTime (storedSessions st ! i) \<noteq> None"
  then show "endSession e d st
              = (Some (Session e (storedSessions st ! i)), st\<lparr>activeSession := None\<rparr>)"
    by (intro endSession_ended[OF host_Browser_reaches[OF b]]) simp_all
next
  assume h: "truthy (activeSession st)
        \<and> findIndex (\<lambda>s. Some (sid s) = activeSession st) (storedSessions st) = Some i
        \<and> endTime (storedSessions st ! i) = None
        \<and> s = storedSessions st ! i
        \<and> s' = s\<lparr>description := (case d of None \<Rightarrow> description s
                                     | Some x \<Rightarrow> if x \<noteq> [] then x else description s),
                  totalTokens :=
                    (if (totalTokens s = None \<or> totalTokens s = Some 0)
                        \<and> sessionTokens (tokenHistory st) s > 0
                     then Some (sessionTokens (tokenHistory st) s) else totalTokens s),
                  endTime := Some (now e)\<rparr>"
  show "endSession e d st
              = (Some (Session e s'),
                 st\<lparr>sessionsFile := Some ((storedSessions st)[i := s']), activeSession := None\<rparr>)"
    by (rule endSession_open[OF b]) (use h in blast)+
next
  assume "tokenEntries x = Some ids \<and> distinct ids \<and> distinct (List.map_filter entryId hist)"
  then show "sessionTokens hist x = sum_list (map tokensUsed (referencedEntries hist x))"
    by (intro sessionTokens_spec[of x ids hist]) simp_all
qed


theorem end_session_cases_witness:
  "endSession exampleEnv None (workStore\<lparr>activeSession := None\<rparr>)
     = (None, workStore\<lparr>activeSession := None\<rparr>)
   \<and> endSession exampleEnv None (workStore\<lparr>activeSession := Some ''gone''\<rparr>)
     = (None, workStore\<lparr>activeSession := None\<rparr>)
   \<and> endSession exampleEnv None (workStore\<lparr>activeSession := Some ''b''\<rparr>)
     = (Some (Session exampleEnv ((exampleSession ''b'' 0)\<lparr>endTime := Some 50\<rparr>)),
        workStore\<lparr>activeSession := None\<rparr>)
   \<and> endSession exampleEnv (Some ''done'') workStore
     = (Some (Session exampleEnv
          ((exampleSession ''w'' 0)\<lparr>tokenEntries := Some [''e1'', ''e2''], description := ''done'',
             totalTokens := Some 150, endTime := Some 10800000\<rparr>)),
        workStore\<lparr>sessionsFile :=
            Some [(exampleSession ''w'' 0)\<lparr>tokenEntries := Some [''e1'', ''e2''],
                     description := ''done'', totalTokens := Some 150,
                     endTime := Some 10800000\<rparr>,
                  (exampleSession ''b'' 0)\<lparr>endTime := Some 50\<rparr>],
          activeSession := None\<rparr>)
   \<and> sum_list (map tokensUsed (referencedEntries (tokenHistory workStore)
          ((exampleSession ''w'' 0)\<lparr>tokenEntries := Some [''e1'', ''e2'']\<rparr>))) = 150"
proof -
  let ?w = "(exampleSession ''w'' 0)\<lparr>tokenEntries := Some [''e1'', ''e2'']\<rparr>"
  let ?w' = "?w\<lparr>description := (case Some ''done'' of None \<Rightarrow> description ?w
                                     | Some x \<Rightarrow> if x \<noteq> [] then x else description ?w),
                  totalTokens :=
                    (if (totalTokens ?w = None \<or> totalTokens ?w = Some 0)
                        \<and> sessionTokens (tokenHistory workStore) ?w > 0
                     then Some (sessionTokens (tokenHistory workStore) ?w) else totalTokens ?w),
                  endTime := Some (now exampleEnv)\<rparr>"
  have b: "host exampleEnv = Browser"
    by (simp add: exampleEnv_def)
  have h1: "\<not> truthy (activeSession (workStore\<lparr>activeSession := None\<rparr>))"
    by (simp add: truthy_def)
  have c1: "endSession exampleEnv None (workStore\<lparr>activeSession := None\<rparr>)
     = (None, workStore\<lparr>activeSession := None\<rparr>)"
    using end_session_cases[OF b, where st = "workStore\<lparr>activeSession := None\<rparr>"
        and d = None] h1 by blast
  have h2: "truthy (activeSession (workStore\<lparr>activeSession := Some ''gone''\<rparr>))
      \<and> findIndex (\<lambda>s. Some (sid s) = activeSession (workStore\<lparr>activeSession := Some ''gone''\<rparr>))
           (storedSessions (workStore\<lparr>activeSession := Some ''gone''\<rparr>)) = None"
    by (simp add: truthy_def workStore_def storedSessions_def exampleSession_def)
  have c2: "endSession exampleEnv None (workStore\<lparr>activeSession := Some ''gone''\<rparr>)
     = (None, workStore\<lparr>activeSession := Some ''gone'', activeSession := None\<rparr>)"
    using end_session_cases[OF b, where st = "workStore\<lparr>activeSession := Some ''gone''\<rparr>"
        and d = None] h2 by blast
  have h3: "truthy (activeSession (workStore\<lparr>activeSession := Some ''b''\<rparr>))
      \<and> findIndex (\<lambda>s. Some (sid s) = activeSession (workStore\<lparr>activeSession := Some ''b''\<rparr>))
           (storedSessions (workStore\<lparr>activeSession := Some ''b''\<rparr>)) = Some 1
      \<and> endTime (storedSessions (workStore\<lparr>activeSession := Some ''b''\<rparr>) ! 1) \<noteq> None"
    by (simp add: truthy_def workStore_def storedSessions_def exampleSession_def)
  have c3: "endSession exampleEnv None (workStore\<lparr>activeSession := Some ''b''\<rparr>)
     = (Some (Session exampleEnv (storedSessions (workStore\<lparr>activeSession := Some ''b''\<rparr>) ! 1)),
        workStore\<lparr>activeSession := Some ''b'', activeSession := None\<rparr>)"
    using end_session_cases[OF b, where st = "workStore\<lparr>activeSession := Some ''b''\<rparr>"
        and d = None and i = 1] h3 by blast
  have h4: "truthy (activeSession workStore)
      \<and> findIndex (\<lambda>s. Some (sid s) = activeSession workStore) (storedSessions workStore) = Some 0
      \<and> endTime (storedSessions workStore ! 0) = None
      \<and> ?w = storedSessions workStore ! 0
      \<and> ?w' = ?w'"
    by (simp add: truthy_def workStore_def storedSessions_def exampleSession_def)
  have c4: "endSession exampleEnv (Some ''done'') workStore
     = (Some (Session exampleEnv ?w'),
        workStore\<lparr>sessionsFile := Some ((storedSessions workStore)[0 := ?w']),
          activeSession := None\<rparr>)"
    using end_session_cases[OF b, where st = workStore and d = "Some ''done''"
        and i = 0 and s = ?w and s' = ?w'] h4 by blast
  have st: "sessionTokens (tokenHistory workStore) ?w = 150"
    by code_simp
  have w': "?w' = (exampleSession ''w'' 0)\<lparr>tokenEntries := Some [''e1'', ''e2''],
      description := ''done'', totalTokens := Some 150, endTime := Some 10800000\<rparr>"
    unfolding st by (simp add: exampleSession_def exampleEnv_def)
  have h5: "tokenEntries ?w = Some [''e1'', ''e2''] \<and> distinct [''e1'', ''e2'']
      \<and> distinct (List.map_filter entryId (tokenHistory workStore))"
    by (simp add: workStore_def exampleEntry_def List.map_filter_simps)
  have c5: "sessionTokens (tokenHistory workStore) ?w
      = sum_list (map tokensUsed (referencedEntries (tokenHistory workStore) ?w))"
    using end_session_cases[OF b, where x = ?w and ids = "[''e1'', ''e2'']"
        and hist = "tokenHistory workStore"] h5 by blast
  have l1: "storedSessions (workStore\<lparr>activeSession := Some ''b''\<rparr>) ! 1
      = (exampleSession ''b'' 0)\<lparr>endTime := Some 50\<rparr>"
    by (simp add: workStore_def storedSessions_def)
  have l0: "(storedSessions workStore)[0 := y]
      = [y, (exampleSession ''b'' 0)\<lparr>endTime := Some 50\<rparr>]" for y
    by (simp add: workStore_def storedSessions_def)
  have c2': "endSession exampleEnv None (workStore\<lparr>activeSession := Some ''gone''\<rparr>)
     = (None, workStore\<lparr>activeSession := None\<rparr>)"
    using c2 by simp
  have c3': "endSession exampleEnv None (workStore\<lparr>activeSession := Some ''b''\<rparr>)
     = (Some (Session exampleEnv ((exampleSession ''b'' 0)\<lparr>endTime := Some 50\<rparr>)),
        workStore\<lparr>activeSession := None\<rparr>)"
    using c3 unfolding l1 by simp
  note c4' = c4[unfolded w' l0]
  have c5': "sum_list (map tokensUsed (referencedEntries (tokenHistory workStore) ?w)) = 150"
    using c5[symmetric] st by (rule trans)
  show ?thesis
    by (intro conjI c1 c2' c3' c4' c5')
qed

text \<open>
  The pointer names the ended session \<open>b\<close>: no session is active, yet \<open>endSession\<close>
  returns \<open>b\<close> rather than \<open>null\<close>, and stamps nothing.
\<close>

theorem end_session_stale_counterexample:
  "fst (getActiveSession exampleEnv (workStore\<lparr>activeSession := Some ''b''\<rparr>)) = None
   \<and> fst (endSession exampleEnv None (workStore\<lparr>activeSession := Some ''b''\<rparr>))
       = Some (Session exampleEnv ((exampleSession ''b'' 0)\<lparr>endTime := Some 50\<rparr>))
   \<and> map endTime (storedSessions (snd (endSession exampleEnv None
         (workStore\<lparr>activeSession := Some ''b''\<rparr>)))) = [None, Some 50]"
  by code_simp

text \<open>
  A session that lists the reference \<open>e1\<close> twice: the code counts the entry twice and
  adopts 250, where the entries it references add up to 150.
\<close>

lemma repeated_reference_counted_twice:
  "sessionTokens (tokenHistory workStore)
      ((exampleSession ''w'' 0)\<lparr>tokenEntries := Some [''e1'', ''e1'', ''e2'']\<rparr>) = 250
   \<and> sum_list (map tokensUsed (referencedEntries (tokenHistory workStore)
        ((exampleSession ''w'' 0)\<lparr>tokenEntries := Some [''e1'', ''e1'', ''e2'']\<rparr>))) = 150"
  by code_simp

text \<open>
  The tier of the first example run by \<open>node\<close>: the pointer names the open session \<open>w\<close>,
  and \<open>endSession\<close> returns \<open>null\<close> without stamping it.
\<close>

lemma endSession_under_node:
  "endSession (exampleEnv\<lparr>host := Node False\<rparr>) None workStore = (None, workStore)"
  by (simp add: endSession_without_modules)

section \<open>A stale pointer is never taken for an active session\<close>





lemma generateSessionId_nonempty: "generateSessionId e \<noteq> []"
  by (simp add: generateSessionId_def)

lemma sid_newSession: "sid (newSession e options) = generateSessionId e"
  by (simp add: newSession_def)



lemma startSession_creates:
  assumes r: "reachesStorage (host e)"
    and "st1 = snd (checkAndEndTimedOutSessions SESSION_TIMEOUT_MS e st)"
    and "\<not> truthy (activeSession st1)
         \<or> (\<forall>s \<in> set (storedSessions st1). Some (sid s) = activeSession st1 \<longrightarrow> endTime s \<noteq> None)"
  shows "startSession e options st =
           (newSession e options,
            st1\<lparr>sessionsFile := Some (storedSessions st1 @ [newSession e options]),
                activeSession := Some (generateSessionId e)\<rparr>)"
proof -
  have tr: "truthy (Some (generateSessionId e))"
    by (simp add: truthy_def generateSessionId_nonempty)
  have cr: "setActiveSessionId (host e) (Some (sid (newSession e options)))
               (saveSessions (host e) (storedSessions st1 @ [newSession e options]) st1)
            = st1\<lparr>sessionsFile := Some (storedSessions st1 @ [newSession e options]),
                activeSession := Some (generateSessionId e)\<rparr>"
    using tr by (simp add: reach_simps[OF r] sid_newSession)
  define active where "active = (if truthy (activeSession st1)
        then find (\<lambda>s. Some (sid s) = activeSession st1) (storedSessions st1) else None)"
  have "active = None \<or> (\<exists>a. active = Some a \<and> endTime a \<noteq> None)"
  proof (cases active)
    case None
    then show ?thesis by simp
  next
    case (Some a)
    then have t: "truthy (activeSession st1)"
      and f: "find (\<lambda>s. Some (sid s) = activeSession st1) (storedSessions st1) = Some a"
      by (simp_all add: active_def split: if_splits)
    from f have "a \<in> set (storedSessions st1)" "Some (sid a) = activeSession st1"
      by (auto simp: find_Some_iff)
    then have "endTime a \<noteq> None" using assms(3) t by blast
    then show ?thesis using Some by simp
  qed
  then show ?thesis
    unfolding startSession_def Let_def assms(2)[symmetric] reach_simps(1,3)[OF r]
      active_def[symmetric] cr
    by auto
qed



lemma startSession_without_modules:
  "host e = Node False \<Longrightarrow> startSession e options st = (newSession e options, st)"
  by (simp add: startSession_def sweep_without_modules helpers_without_modules truthy_def)




text \<open>
  The same stale pointer met by a script run by \<open>node\<close>: \<open>endSession\<close> returns \<open>null\<close>
  and the pointer file keeps naming the ended session \<open>b\<close>.
\<close>

lemma stale_pointer_under_node:
  "endSession (exampleEnv\<lparr>host := Node False\<rparr>) None (workStore\<lparr>activeSession := Some ''b''\<rparr>)
     = (None, workStore\<lparr>activeSession := Some ''b''\<rparr>)"
  by (simp add: endSession_without_modules)

section \<open>Starting a session while one is active\<close>

lemma Session_newSession: "Session e' (newSession e options) = newSession e options"
  by (simp add: Session_def newSession_def or_null_def generateSessionId_nonempty)

lemma lastActivity_newSession: "getLastActivityTime h (newSession e options) = now e"
  by (simp add: getLastActivityTime_def newSession_def)

lemma find_append_last:
  assumes "\<forall>x \<in> set xs. \<not> P x" and "P a"
  shows "find P (xs @ [a]) = Some a"
  using assms by (induction xs) auto

text \<open>
  Claim C3, as amended, for the tier that the session manager reaches: the browser's
  \<open>localStorage\<close>. Start from a tier in which no session is open, let \<open>startSession\<close>
  create session A under an id that no stored session bears, and call \<open>startSession\<close>
  again for B before A's timeout has elapsed. The second call creates nothing and
  returns A: exactly one stored session has no end time and it is A, the one started
  first; the pointer names A, \<open>getActiveSession\<close> returns A, and the store has as many
  sessions as before the second call.
\<close>

theorem start_twice_keeps_first:
  assumes b1: "host e1 = Browser" and b2: "host e2 = Browser"
    and noopen: "\<forall>s \<in> set (storedSessions st0). endTime s \<noteq> None"
    and fresh: "generateSessionId e1 \<notin> sid ` set (storedSessions st0)"
    and soon: "now e2 - now e1 < SESSION_TIMEOUT_MS"
    and first: "startSession e1 optionsA st0 = (a, st1)"
    and second: "startSession e2 optionsB st1 = (b, st2)"
  shows "a = newSession e1 optionsA
       \<and> b = a
       \<and> openSessions st2 = [a]
       \<and> activeSession st2 = Some (sid a)
       \<and> endTime a = None
       \<and> length (storedSessions st2) = length (storedSessions st1)
       \<and> last (storedSessions st2) = a
       \<and> getActiveSession e2 st2 = (Some a, st2)"
proof -
  let ?T = SESSION_TIMEOUT_MS
  let ?s0 = "snd (checkAndEndTimedOutSessions ?T e1 st0)"
  let ?a = "newSession e1 optionsA"
  note r1 = host_Browser_reaches[OF b1]
  note r2 = host_Browser_reaches[OF b2]
  have e0: "\<forall>s \<in> set (storedSessions ?s0). endTime s \<noteq> None"
    using noopen by (auto simp: sweep_sessions[OF b1] sweepSession_ended)
  have c1: "startSession e1 optionsA st0 =
      (?a, ?s0\<lparr>sessionsFile := Some (storedSessions ?s0 @ [?a]),
               activeSession := Some (generateSessionId e1)\<rparr>)"
    using r1 refl by (rule startSession_creates) (use e0 in blast)
  have eq1: "(a, st1) = (?a, ?s0\<lparr>sessionsFile := Some (storedSessions ?s0 @ [?a]),
               activeSession := Some (generateSessionId e1)\<rparr>)"
    unfolding first[symmetric] by (rule c1)
  have a: "a = ?a" and st1: "st1 = ?s0\<lparr>sessionsFile := Some (storedSessions ?s0 @ [?a]),
               activeSession := Some (generateSessionId e1)\<rparr>"
    using eq1 by blast+
  have l1: "storedSessions st1 = storedSessions ?s0 @ [?a]"
    and ptr1: "activeSession st1 = Some (generateSessionId e1)"
    by (simp_all add: st1 storedSessions_def)
  have sids0: "\<forall>s \<in> set (storedSessions ?s0). sid s \<noteq> generateSessionId e1"
    using fresh by (force simp: sweep_sessions[OF b1] sid_sweepSession image_iff)
  have nd: "\<not> timedOut ?T (now e2) h ?a" for h
    using soon by (simp add: timedOut_def lastActivity_newSession)
  have sw_a: "sweepSession ?T (now e2) h ?a = ?a" for h
    by (simp add: sweepSession_def nd)
  let ?s2 = "snd (checkAndEndTimedOutSessions ?T e2 st1)"
  have l2: "storedSessions ?s2
      = map (sweepSession ?T (now e2) (tokenHistory st1)) (storedSessions ?s0) @ [?a]"
    by (simp add: sweep_sessions[OF b2] l1 sw_a)
  have ptr2: "activeSession ?s2 = Some (generateSessionId e1)"
    using sids0 nd by (auto simp: sweep_pointer[OF b2] l1 ptr1 sid_newSession)
  have sids2: "\<forall>s \<in> set (map (sweepSession ?T (now e2) (tokenHistory st1)) (storedSessions ?s0)).
      sid s \<noteq> generateSessionId e1"
    using sids0 by (auto simp: sid_sweepSession)
  have ended2: "\<forall>s \<in> set (map (sweepSession ?T (now e2) (tokenHistory st1)) (storedSessions ?s0)).
      endTime s \<noteq> None"
    using e0 by (auto simp: sweepSession_ended)
  have open_a: "endTime ?a = None"
    by (simp add: newSession_def)
  have tr: "truthy (Some (generateSessionId e1))"
    by (simp add: truthy_def generateSessionId_nonempty)
  have f2: "find (\<lambda>s. sid s = generateSessionId e1) (storedSessions ?s2) = Some ?a"
    unfolding l2 by (rule find_append_last) (use sids2 in \<open>auto simp: sid_newSession\<close>)
  have c2: "startSession e2 optionsB st1 = (?a, ?s2)"
    by (simp add: startSession_def Let_def b2 Browser_simps ptr2 tr f2 open_a
        Session_newSession)
  have eq2: "(b, st2) = (?a, ?s2)"
    unfolding second[symmetric] by (rule c2)
  have b: "b = ?a" and st2: "st2 = ?s2"
    using eq2 by blast+
  have f3: "find (\<lambda>s. sid s = generateSessionId e1 \<and> endTime s = None)
      (storedSessions ?s2) = Some ?a"
    unfolding l2 by (rule find_append_last) (use sids2 open_a in \<open>auto simp: sid_newSession\<close>)
  have idem: "snd (checkAndEndTimedOutSessions ?T e2 ?s2) = ?s2"
    by (simp add: sweep_idempotent[OF b2])
  have g: "getActiveSession e2 ?s2 = (Some ?a, ?s2)"
    by (simp add: getActiveSession_def Let_def idem b2 Browser_simps ptr2 tr f3
        Session_newSession)
  have len: "length (storedSessions ?s2) = length (storedSessions st1)"
    by (simp add: l2 l1)
  have la: "last (storedSessions ?s2) = ?a"
    by (simp add: l2)
  have "filter (\<lambda>s. endTime s = None)
          (map (sweepSession ?T (now e2) (tokenHistory st1)) (storedSessions ?s0)) = []"
    using ended2 by (simp only: filter_empty_conv)
  then have op: "openSessions ?s2 = [?a]"
    unfolding openSessions_def l2 by (simp add: open_a)
  have 1: "a = ?a" by (rule a)
  have 2: "b = a" unfolding a by (rule b)
  have 3: "openSessions st2 = [a]" unfolding a st2 by (rule op)
  have 4: "activeSession st2 = Some (sid a)"
    unfolding a st2 using ptr2 by (simp add: sid_newSession)
  have 5: "endTime a = None" unfolding a by (rule open_a)
  have 6: "length (storedSessions st2) = length (storedSessions st1)"
    unfolding st2 by (rule len)
  have 7: "last (storedSessions st2) = a" unfolding a st2 by (rule la)
  have 8: "getActiveSession e2 st2 = (Some a, st2)" unfolding a st2 by (rule g)
  show ?thesis
    by (intro conjI 1 2 3 4 5 6 7 8)
qed

text \<open>
  Two calls one second apart on an idle tier: the store holds the single session A with
  end time \<open>null\<close>, the pointer names A, and the second call returns A (its description is
  A's), not a session generated for B.
\<close>

theorem start_twice_counterexample:
  "activeSession (snd (startSession envB (exampleOptions ''B'')
       (snd (startSession envA (exampleOptions ''A'') idleStore))))
     = Some (generateSessionId envA)
   \<and> map sid (storedSessions (snd (startSession envB (exampleOptions ''B'')
       (snd (startSession envA (exampleOptions ''A'') idleStore)))))
     = [generateSessionId envA]
   \<and> map endTime (storedSessions (snd (startSession envB (exampleOptions ''B'')
       (snd (startSession envA (exampleOptions ''A'') idleStore)))))
     = [None]
   \<and> description (fst (startSession envB (exampleOptions ''B'')
       (snd (startSession envA (exampleOptions ''A'') idleStore)))) = ''A''
   \<and> generateSessionId envA \<noteq> generateSessionId envB"
  by code_simp


theorem start_twice_keeps_first_witness:
  "fst (startSession envA (exampleOptions ''A'') idleStore) = newSession envA (exampleOptions ''A'')
   \<and> fst (startSession envB (exampleOptions ''B'')
          (snd (startSession envA (exampleOptions ''A'') idleStore)))
       = fst (startSession envA (exampleOptions ''A'') idleStore)
   \<and> openSessions (snd (startSession envB (exampleOptions ''B'')
          (snd (startSession envA (exampleOptions ''A'') idleStore))))
       = [fst (startSession envA (exampleOptions ''A'') idleStore)]
   \<and> activeSession (snd (startSession envB (exampleOptions ''B'')
          (snd (startSession envA (exampleOptions ''A'') idleStore))))
       = Some (sid (fst (startSession envA (exampleOptions ''A'') idleStore)))
   \<and> endTime (fst (startSession envA (exampleOptions ''A'') idleStore)) = None"
proof -
  have b1: "host envA = Browser" and b2: "host envB = Browser"
    by (simp_all add: envA_def envB_def)
  have noopen: "\<forall>s \<in> set (storedSessions idleStore). endTime s \<noteq> None"
    by (simp add: idleStore_def storedSessions_def)
  have fresh: "generateSessionId envA \<notin> sid ` set (storedSessions idleStore)"
    by (simp add: idleStore_def storedSessions_def)
  have soon: "now envB - now envA < SESSION_TIMEOUT_MS"
    by (simp add: envA_def envB_def SESSION_TIMEOUT_MS_def)
  have first: "startSession envA (exampleOptions ''A'') idleStore
      = (fst (startSession envA (exampleOptions ''A'') idleStore),
         snd (startSession envA (exampleOptions ''A'') idleStore))"
    by simp
  have second: "startSession envB (exampleOptions ''B'')
        (snd (startSession envA (exampleOptions ''A'') idleStore))
      = (fst (startSession envB (exampleOptions ''B'')
            (snd (startSession envA (exampleOptions ''A'') idleStore))),
         snd (startSession envB (exampleOptions ''B'')
            (snd (startSession envA (exampleOptions ''A'') idleStore))))"
    by simp
  note t = start_twice_keeps_first[OF b1 b2 noopen fresh soon first second]
  show ?thesis
    using t by blast
qed

text \<open>
  The hypothesis that no session is open at the start cannot be dropped: on a tier that
  holds the open session \<open>z\<close> without pointing to it, the same two calls leave two
  sessions without end time, \<open>z\<close> and A.
\<close>

lemma start_twice_beside_open_session:
  "map sid (openSessions (snd (startSession envB (exampleOptions ''B'')
       (snd (startSession envA (exampleOptions ''A'') strayStore)))))
     = [''z'', generateSessionId envA]"
  by code_simp

text \<open>
  The same two calls made by scripts run by \<open>node\<close>: each returns a session of its own,
  and neither is stored or pointed to.
\<close>

lemma start_twice_under_node:
  "startSession (envA\<lparr>host := Node False\<rparr>) (exampleOptions ''A'') idleStore
     = (newSession (envA\<lparr>host := Node False\<rparr>) (exampleOptions ''A''), idleStore)
   \<and> startSession (envB\<lparr>host := Node False\<rparr>) (exampleOptions ''B'') idleStore
     = (newSession (envB\<lparr>host := Node False\<rparr>) (exampleOptions ''B''), idleStore)"
  by (simp add: startSession_without_modules)

section \<open>Properties of the reconciler\<close>

lemma set_add_all_set: "set (set_add_all acc xs) = set acc \<union> set xs"
  by (induction xs arbitrary: acc) auto

lemma set_add_all_distinct: "distinct acc \<Longrightarrow> distinct (set_add_all acc xs)"
  by (induction xs arbitrary: acc) auto

lemma set_add_all_id: "distinct (acc @ xs) \<Longrightarrow> set_add_all acc xs = acc @ xs"
  by (induction xs arbitrary: acc) auto

lemma set_add_all_snoc:
  "set_add_all acc (xs @ [x]) =
     (if x \<in> set (set_add_all acc xs) then set_add_all acc xs else set_add_all acc xs @ [x])"
  by (induction xs arbitrary: acc) auto

lemma set_add_all_step:
  "set_add_all (if k \<in> set pk then pk else pk @ [k]) ks = set_add_all pk (k # ks)"
  by simp

lemma processRows_Inr:
  assumes "\<forall>r \<in> set rows. hash r \<noteq> None"
  shows "processRows ex rows (t, ids, pk) =
     Inr (t + sum_list (map estimatedTokens (filter (\<lambda>r. rowEntryId r \<notin> set ex) rows)),
          ids @ map rowEntryId (filter (\<lambda>r. rowEntryId r \<notin> set ex) rows),
          set_add_all pk (map promptKey (filter (\<lambda>r. rowEntryId r \<notin> set ex) rows)))"
  using assms
proof (induction rows arbitrary: t ids pk)
  case Nil
  then show ?case by simp
next
  case (Cons r rows)
  then obtain h where h: "hash r = Some h" by auto
  have rid: "rowEntryId r = makeEntryId (createdAt r) h"
    by (simp add: rowEntryId_def h)
  have rest: "\<forall>r \<in> set rows. hash r \<noteq> None" using Cons.prems by simp
  show ?case
  proof (cases "rowEntryId r \<in> set ex")
    case True
    then show ?thesis
      using Cons.IH[OF rest] by (simp add: h rid[symmetric])
  next
    case False
    then show ?thesis
      using Cons.IH[OF rest] by (simp add: h rid[symmetric] Let_def)
  qed
qed

lemma processRows_Inl:
  assumes "\<exists>r \<in> set rows. hash r = None"
  shows "processRows ex rows acc = Inl HashMissing"
  using assms
proof (induction rows arbitrary: acc)
  case Nil
  then show ?case by simp
next
  case (Cons r rows)
  obtain t ids pk where acc: "acc = (t, ids, pk)" by (cases acc) auto
  show ?case
  proof (cases "hash r")
    case None
    then show ?thesis by (simp add: acc)
  next
    case (Some h)
    then have "\<exists>r \<in> set rows. hash r = None" using Cons.prems by auto
    then show ?thesis
      using Cons.IH Some by (simp add: acc Let_def)
  qed
qed


lemma processRows_syncResult:
  assumes "\<forall>r \<in> set rows. hash r \<noteq> None"
  shows "processRows (case tokenEntries s of None \<Rightarrow> [] | Some l \<Rightarrow> l) rows (0, [], [])
           = Inr (syncResult s rows)"
  using processRows_Inr[OF assms, of "case tokenEntries s of None \<Rightarrow> [] | Some l \<Rightarrow> l" 0 "[]" "[]"]
  by (simp add: syncResult_def isNewRow_def[abs_def])

lemma main_run:
  assumes "st1 = snd (checkAndEndTimedOutSessions SESSION_TIMEOUT_MS e st)"
    and "activeSession st1 = Some p"
    and "sessionsFile st1 = Some sessions"
    and "findIndex (\<lambda>s. sid s = p \<and> endTime s = None) sessions = Some i"
    and "rows = queryRows table (startTime (sessions ! i))"
    and "\<forall>r \<in> set rows. hash r \<noteq> None"
  shows "main e (Some table) st
           = (None, st1\<lparr>sessionsFile := Some (sessions[i := reconciled (sessions ! i) rows])\<rparr>)"
proof (cases "rows = []")
  case True
  have "st1\<lparr>sessionsFile := Some (sessions[i := sessions ! i])\<rparr> = st1"
    using assms(3) by simp
  then show ?thesis
    using True assms(2-5)
    by (simp add: main_def Let_def assms(1)[symmetric] reconciled_def)
next
  case False
  then show ?thesis
    using assms(2-5) processRows_syncResult[OF assms(6), of "sessions ! i"]
    by (simp add: main_def Let_def assms(1)[symmetric] reconciled_def)
qed

lemma main_success:
  assumes "main e db st = (None, st')"
    and "st1 = snd (checkAndEndTimedOutSessions SESSION_TIMEOUT_MS e st)"
  shows "\<exists>p sessions i table.
           activeSession st1 = Some p \<and> sessionsFile st1 = Some sessions
           \<and> findIndex (\<lambda>s. sid s = p \<and> endTime s = None) sessions = Some i
           \<and> db = Some table
           \<and> (\<forall>r \<in> set (queryRows table (startTime (sessions ! i))). hash r \<noteq> None)
           \<and> st' = st1\<lparr>sessionsFile :=
                  Some (sessions[i := reconciled (sessions ! i)
                                        (queryRows table (startTime (sessions ! i)))])\<rparr>"
proof -
  from assms(1) obtain p where p: "activeSession st1 = Some p"
    by (auto simp: main_def Let_def assms(2)[symmetric] split: option.splits)
  from assms(1) p obtain sessions where ss: "sessionsFile st1 = Some sessions"
    by (auto simp: main_def Let_def assms(2)[symmetric] split: option.splits)
  from assms(1) p ss obtain i
    where i: "findIndex (\<lambda>s. sid s = p \<and> endTime s = None) sessions = Some i"
    by (auto simp: main_def Let_def assms(2)[symmetric] split: option.splits)
  from assms(1) p ss i obtain table where t: "db = Some table"
    by (auto simp: main_def Let_def assms(2)[symmetric] split: option.splits)
  let ?rows = "queryRows table (startTime (sessions ! i))"
  have h: "\<forall>r \<in> set ?rows. hash r \<noteq> None"
  proof (rule ccontr)
    assume "\<not> (\<forall>r \<in> set ?rows. hash r \<noteq> None)"
    then have ex: "\<exists>r \<in> set ?rows. hash r = None" by simp
    then have ne: "?rows \<noteq> []" by auto
    have "main e db st = (Some HashMissing, st1)"
      using p ss i t ne processRows_Inl[OF ex]
      by (simp add: main_def Let_def assms(2)[symmetric])
    then show False using assms(1) by simp
  qed
  have "main e (Some table) st
      = (None, st1\<lparr>sessionsFile := Some (sessions[i := reconciled (sessions ! i) ?rows])\<rparr>)"
    using assms(2) p ss i refl h by (rule main_run)
  then have "st' = st1\<lparr>sessionsFile := Some (sessions[i := reconciled (sessions ! i) ?rows])\<rparr>"
    using assms(1) t by simp
  then show ?thesis using p ss i t h by blast
qed


lemma findIndex_update:
  "findIndex P xs = Some i \<Longrightarrow> P y \<Longrightarrow> findIndex P (xs[i := y]) = Some i"
proof (induction xs arbitrary: i)
  case Nil
  then show ?case by simp
next
  case (Cons x xs)
  show ?case
  proof (cases "P x")
    case True
    then show ?thesis using Cons.prems by simp
  next
    case False
    then obtain j where j: "findIndex P xs = Some j" "i = Suc j"
      using Cons.prems by (auto split: option.splits)
    then show ?thesis
      using False Cons.IH[OF j(1) Cons.prems(2)] by simp
  qed
qed

lemma activeSessionOf_index:
  assumes "activeSession st = Some p" and "sessionsFile st = Some sessions"
    and "findIndex (\<lambda>s. sid s = p \<and> endTime s = None) sessions = Some i"
  shows "activeSessionOf st = Some (sessions ! i)"
  using assms findIndex_Some[OF assms(3)]
  by (simp add: activeSessionOf_def storedSessions_def)

lemma reconciled_fields:
  "sid (reconciled s rows) = sid s"
  "endTime (reconciled s rows) = endTime s"
  "startTime (reconciled s rows) = startTime s"
  "activities (reconciled s rows) = activities s"
  by (simp_all add: reconciled_def applySync_def syncResult_def Let_def)

lemma reconciled_tokens:
  "previousTokens (reconciled s rows)
     = previousTokens s + sum_list (map estimatedTokens (filter (isNewRow s) rows))"
  by (simp add: reconciled_def applySync_def syncResult_def Let_def previousTokens_def)

lemma estimatedTokens_ceiling:
  "codeLength r \<le> 4 * estimatedTokens r \<and> 4 * estimatedTokens r < codeLength r + 4"
  by (simp add: estimatedTokens_def) presburger

lemma estimatedTokens_nonneg: "0 \<le> estimatedTokens r"
proof -
  have "0 \<le> codeLength r"
    by (simp add: codeLength_def split: option.splits)
  then show ?thesis
    by (simp add: estimatedTokens_def)
qed

text \<open>
  The script is run by \<open>node\<close>. The sweep that opens it then loads no session, so the
  script works on the two files as it finds them, whatever the clock says.
\<close>

lemma main_sweep_inert:
  "host e = Node False \<Longrightarrow> snd (checkAndEndTimedOutSessions SESSION_TIMEOUT_MS e st) = st"
  by (simp add: sweep_without_modules)

lemma main_any_clock:
  "host e = Node False \<Longrightarrow> host e2 = Node False \<Longrightarrow> main e2 db st = main e db st"
  by (simp add: main_def main_sweep_inert)

lemma main_state:
  "snd (main e db st) = snd (checkAndEndTimedOutSessions SESSION_TIMEOUT_MS e st)
   \<or> fst (main e db st) = None"
  by (simp add: main_def Let_def split: option.splits sum.splits)

lemma main_active_sessions:
  assumes n: "host e = Node False"
    and "main e db st = (None, st')"
  shows "\<exists>s table. activeSessionOf st = Some s \<and> db = Some table
           \<and> (\<forall>r \<in> set (queryRows table (startTime s)). hash r \<noteq> None)
           \<and> activeSessionOf st' = Some (reconciled s (queryRows table (startTime s)))
           \<and> activeSession st' = activeSession st"
proof -
  have sw: "st = snd (checkAndEndTimedOutSessions SESSION_TIMEOUT_MS e st)"
    by (simp add: main_sweep_inert[OF n])
  from main_success[OF assms(2) sw]
  obtain p sessions i table where
    p: "activeSession st = Some p" and ss: "sessionsFile st = Some sessions"
    and i: "findIndex (\<lambda>s. sid s = p \<and> endTime s = None) sessions = Some i"
    and t: "db = Some table"
    and h: "\<forall>r \<in> set (queryRows table (startTime (sessions ! i))). hash r \<noteq> None"
    and st': "st' = st\<lparr>sessionsFile :=
                  Some (sessions[i := reconciled (sessions ! i)
                                        (queryRows table (startTime (sessions ! i)))])\<rparr>"
    by blast
  let ?s = "sessions ! i"
  let ?s' = "reconciled ?s (queryRows table (startTime ?s))"
  have a0: "activeSessionOf st = Some ?s"
    using p ss i by (rule activeSessionOf_index)
  have P: "sid ?s = p \<and> endTime ?s = None" and il: "i < length sessions"
    using findIndex_Some[OF i] by simp_all
  have i': "findIndex (\<lambda>s. sid s = p \<and> endTime s = None) (sessions[i := ?s']) = Some i"
    using i by (rule findIndex_update) (simp add: reconciled_fields P)
  have a2: "activeSessionOf st' = Some ((sessions[i := ?s']) ! i)"
    by (rule activeSessionOf_index[OF _ _ i']) (simp_all add: st' p)
  have "activeSession st' = activeSession st"
    by (simp add: st')
  then show ?thesis
    using a0 a2 il t h by simp
qed


lemma tokenEntries_reconciled:
  "rows \<noteq> [] \<Longrightarrow>
   tokenEntries (reconciled s rows)
     = Some ((case tokenEntries s of None \<Rightarrow> [] | Some l \<Rightarrow> l)
             @ map rowEntryId (filter (isNewRow s) rows))"
  by (simp add: reconciled_def applySync_def syncResult_def Let_def)

lemma no_new_rows_after:
  assumes "rows \<noteq> []"
  shows "filter (isNewRow (reconciled s rows)) rows = []"
  by (auto simp: filter_empty_conv isNewRow_def tokenEntries_reconciled[OF assms])

lemma reconciled_twice: "reconciled (reconciled s rows) rows = reconciled s rows"
proof (cases "rows = []")
  case True
  then show ?thesis by (simp add: reconciled_def)
next
  case False
  let ?pg = "set_add_all (set_add_all [] (case promptGroups s of None \<Rightarrow> [] | Some g \<Rightarrow> g))
               (set_add_all [] (map promptKey (filter (isNewRow s) rows)))"
  have d: "distinct ?pg"
    by (intro set_add_all_distinct) simp
  have id: "set_add_all [] ?pg = ?pg"
    using set_add_all_id[of "[]" ?pg] d by simp
  have r: "syncResult (reconciled s rows) rows = (0, [], [])"
    by (simp add: syncResult_def no_new_rows_after[OF False])
  have "applySync (0, [], []) (reconciled s rows) = reconciled s rows"
    using False id by (simp add: reconciled_def applySync_def syncResult_def Let_def)
  then show ?thesis
    using False r by (simp add: reconciled_def[of "reconciled s rows"])
qed

text \<open>
  What a pass that completes does to the total: the active session had total T
  (\<open>totalTokens || 0\<close>) and has afterwards exactly T plus the sum, over the fetched rows
  whose derived id was not among its \<open>tokenEntries\<close>, of the estimate of each row; the
  estimate is the least integer that is at least a quarter of the length of the row's
  source; so the total never decreases.
\<close>

lemma completed_pass_adds:
  assumes "host e = Node False" and "main e db st = (None, st')"
  shows "\<exists>s s' table.
           activeSessionOf st = Some s \<and> activeSessionOf st' = Some s' \<and> db = Some table
           \<and> previousTokens s'
               = previousTokens s
                 + sum_list (map estimatedTokens
                     (filter (isNewRow s) (queryRows table (startTime s))))
           \<and> previousTokens s \<le> previousTokens s'
           \<and> (\<forall>r. codeLength r \<le> 4 * estimatedTokens r
                    \<and> 4 * estimatedTokens r < codeLength r + 4)"
proof -
  from main_active_sessions[OF assms]
  obtain s table where s: "activeSessionOf st = Some s" and t: "db = Some table"
    and s': "activeSessionOf st' = Some (reconciled s (queryRows table (startTime s)))"
    by blast
  let ?new = "filter (isNewRow s) (queryRows table (startTime s))"
  have tok: "previousTokens (reconciled s (queryRows table (startTime s)))
      = previousTokens s + sum_list (map estimatedTokens ?new)"
    by (rule reconciled_tokens)
  have "0 \<le> sum_list (map estimatedTokens ?new)"
    by (rule sum_list_nonneg) (auto simp: estimatedTokens_nonneg)
  then have le: "previousTokens s \<le> previousTokens (reconciled s (queryRows table (startTime s)))"
    using tok by simp
  show ?thesis
    using s s' t tok le estimatedTokens_ceiling by blast
qed

text \<open>
  A pass completes exactly when the pointer names an open session of the sessions file,
  the database exists, and every fetched row has a hash.
\<close>

lemma pass_completes:
  assumes n: "host e = Node False"
    and "activeSessionOf st = Some s"
    and "sessionsFile st \<noteq> None"
    and "\<forall>r \<in> set (queryRows table (startTime s)). hash r \<noteq> None"
  shows "fst (main e (Some table) st) = None"
proof -
  from assms(2) obtain p where p: "activeSession st = Some p"
    by (auto simp: activeSessionOf_def split: option.splits)
  from assms(3) obtain sessions where ss: "sessionsFile st = Some sessions"
    by auto
  have f: "find (\<lambda>s. sid s = p \<and> endTime s = None) sessions = Some s"
    using assms(2) p ss by (simp add: activeSessionOf_def storedSessions_def)
  from findIndex_find_Some[OF f]
  obtain i where i: "findIndex (\<lambda>s. sid s = p \<and> endTime s = None) sessions = Some i"
    "sessions ! i = s"
    by auto
  have sw: "st = snd (checkAndEndTimedOutSessions SESSION_TIMEOUT_MS e st)"
    by (simp add: main_sweep_inert[OF n])
  have "main e (Some table) st
      = (None, st\<lparr>sessionsFile := Some (sessions[i :=
           reconciled (sessions ! i) (queryRows table (startTime (sessions ! i)))])\<rparr>)"
    using sw p ss i(1) refl by (rule main_run) (use assms(4) i(2) in simp)
  then show ?thesis by simp
qed

lemma main_rerun:
  assumes n: "host e = Node False"
    and "main e db st = (None, st1)"
  shows "main e db st1 = (None, st1)"
proof -
  have sw: "st = snd (checkAndEndTimedOutSessions SESSION_TIMEOUT_MS e st)"
    by (simp add: main_sweep_inert[OF n])
  from main_success[OF assms(2) sw]
  obtain p sessions i table where
    p: "activeSession st = Some p" and ss: "sessionsFile st = Some sessions"
    and i: "findIndex (\<lambda>s. sid s = p \<and> endTime s = None) sessions = Some i"
    and t: "db = Some table"
    and h: "\<forall>r \<in> set (queryRows table (startTime (sessions ! i))). hash r \<noteq> None"
    and st1: "st1 = st\<lparr>sessionsFile :=
                  Some (sessions[i := reconciled (sessions ! i)
                                        (queryRows table (startTime (sessions ! i)))])\<rparr>"
    by blast
  let ?s = "sessions ! i"
  let ?rows = "queryRows table (startTime ?s)"
  let ?s1 = "reconciled ?s ?rows"
  let ?sessions1 = "sessions[i := ?s1]"
  have P: "sid ?s = p \<and> endTime ?s = None" and il: "i < length sessions"
    using findIndex_Some[OF i] by simp_all
  have p1: "activeSession st1 = Some p"
    and f1: "sessionsFile st1 = Some ?sessions1"
    by (simp_all add: st1 p)
  have sw1: "st1 = snd (checkAndEndTimedOutSessions SESSION_TIMEOUT_MS e st1)"
    by (simp add: main_sweep_inert[OF n])
  have i1: "findIndex (\<lambda>s. sid s = p \<and> endTime s = None) ?sessions1 = Some i"
    using i by (rule findIndex_update) (simp add: reconciled_fields P)
  have at: "?sessions1 ! i = ?s1"
    using il by simp
  have rows1: "?rows = queryRows table (startTime (?sessions1 ! i))"
    by (simp add: at reconciled_fields)
  have "main e (Some table) st1
      = (None, st1\<lparr>sessionsFile := Some (?sessions1[i := reconciled (?sessions1 ! i) ?rows])\<rparr>)"
    using sw1 p1 f1 i1 rows1 h by (rule main_run)
  moreover have "?sessions1[i := reconciled (?sessions1 ! i) ?rows] = ?sessions1"
    by (simp add: at reconciled_twice)
  moreover have "st1\<lparr>sessionsFile := Some ?sessions1\<rparr> = st1"
    using f1 by simp
  ultimately show "main e db st1 = (None, st1)"
    using t by simp
qed

text \<open>
  Claim C2. A pass whose batch holds a row without hash adds nothing. The table
  holds two rows that are new to session \<open>s\<close>, 600 estimated tokens each, and a third
  new row whose hash is \<open>NULL\<close>. \<open>row.hash.substring\<close> throws on that row, after the two
  others have been counted and before anything is written: the script ends with the
  error and the total of \<open>s\<close> is 5000 as before, not 6200. Without the third row the
  same pass completes and leaves 6200.
\<close>

theorem null_hash_row_aborts_pass:
  "main syncEnv (Some nullHashDb) syncStore = (Some HashMissing, syncStore)
   \<and> map_option previousTokens (activeSessionOf syncStore) = Some 5000
   \<and> map source (filter (\<lambda>r. hash r \<noteq> None
                              \<and> isNewRow ((exampleSession ''s'' 0)
                                    \<lparr>totalTokens := Some 5000,
                                     tokenEntries := Some [''entry_5_abcdef12'']\<rparr>) r)
         (queryRows nullHashDb 0))
       = [Some (replicate 2400 CHR ''x''), Some (replicate 2400 CHR ''y'')]
   \<and> sum_list (map estimatedTokens
         (filter (\<lambda>r. hash r \<noteq> None
                       \<and> isNewRow ((exampleSession ''s'' 0)
                             \<lparr>totalTokens := Some 5000,
                              tokenEntries := Some [''entry_5_abcdef12'']\<rparr>) r)
           (queryRows nullHashDb 0))) = 1200
   \<and> map_option previousTokens
        (activeSessionOf (snd (main syncEnv (Some nullHashDb) syncStore))) = Some 5000
   \<and> map_option previousTokens
        (activeSessionOf (snd (main syncEnv (Some syncDb) syncStore))) = Some 6200"
  by code_simp

text \<open>
  Claim C1. The script is run by \<open>node\<close>. Whatever the first run does, a second run
  against the same table, at the same or at any later instant, ends as the first did
  and leaves the file tier exactly as the first left it: no entry is added to the active
  session, no key to its \<open>promptGroups\<close>, and its \<open>totalTokens\<close> is the total after the
  first run.
\<close>

theorem reconcile_idempotent:
  assumes n1: "host e = Node False" and n2: "host e2 = Node False"
  shows "main e2 db (snd (main e db st)) = (fst (main e db st), snd (main e db st))
       \<and> activeSessionOf (snd (main e2 db (snd (main e db st))))
           = activeSessionOf (snd (main e db st))"
proof -
  have run: "main e2 db (snd (main e db st)) = (fst (main e db st), snd (main e db st))"
  proof (cases "fst (main e db st)")
    case None
    then have m: "main e db st = (None, snd (main e db st))"
      by (simp add: prod_eq_iff)
    have "main e db (snd (main e db st)) = (None, snd (main e db st))"
      using n1 m by (rule main_rerun)
    then show ?thesis
      unfolding main_any_clock[OF n1 n2] None .
  next
    case (Some err)
    then have "snd (main e db st) = st"
      using main_state[of e db st] by (simp add: main_sweep_inert[OF n1])
    then show ?thesis
      by (simp add: main_any_clock[OF n1 n2] prod_eq_iff)
  qed
  show ?thesis
    unfolding run by simp
qed

theorem reconcile_idempotent_witness:
  "fst (main syncEnv (Some syncDb) syncStore) = None
   \<and> map (\<lambda>s. (tokenEntries s, promptGroups s, totalTokens s))
        (storedSessions (snd (main syncEnv (Some syncDb) syncStore)))
     = [(Some [''entry_5_abcdef12'', ''entry_6_01234567'', ''entry_7_fedcba98''],
         Some [''prompt_0''], Some 6200)]
   \<and> main syncEnvLater (Some syncDb) (snd (main syncEnv (Some syncDb) syncStore))
     = (None, snd (main syncEnv (Some syncDb) syncStore))"
proof -
  have n1: "host syncEnv = Node False" and n2: "host syncEnvLater = Node False"
    by (simp_all add: syncEnv_def syncEnvLater_def)
  have ok: "fst (main syncEnv (Some syncDb) syncStore) = None"
    by code_simp
  have ev: "map (\<lambda>s. (tokenEntries s, promptGroups s, totalTokens s))
        (storedSessions (snd (main syncEnv (Some syncDb) syncStore)))
     = [(Some [''entry_5_abcdef12'', ''entry_6_01234567'', ''entry_7_fedcba98''],
         Some [''prompt_0''], Some 6200)]"
    by code_simp
  have again: "main syncEnvLater (Some syncDb) (snd (main syncEnv (Some syncDb) syncStore))
     = (None, snd (main syncEnv (Some syncDb) syncStore))"
    using reconcile_idempotent[OF n1 n2, of "Some syncDb" syncStore, THEN conjunct1]
    unfolding ok .
  show ?thesis
    by (intro conjI ok ev again)
qed


end
